theory Spec2Isabelle
  imports Main "HOL-Library.Word"
begin

unbundle bit_operations_syntax

section \<open>JavaScript values used by the DFU code\<close>

type_synonym byte = "8 word"
type_synonym crc = "32 word"

text \<open>
  \<open>Array.prototype.slice(start, end)\<close> on integer arguments: a negative index counts
  from the end of the array, and both indices are clamped to the array.
\<close>

definition js_index :: "nat \<Rightarrow> int \<Rightarrow> nat" where
  "js_index n i = (if i < 0 then nat (max (int n + i) 0) else min (nat i) n)"

definition js_slice :: "'a list \<Rightarrow> int \<Rightarrow> int \<Rightarrow> 'a list" where
  "js_slice xs start end =
     (let k = js_index (length xs) start; f = js_index (length xs) end
      in take (f - k) (drop k xs))"

text \<open>\<open>slice(start)\<close>: the end defaults to the length of the array.\<close>

definition js_slice_from :: "'a list \<Rightarrow> int \<Rightarrow> 'a list" where
  "js_slice_from xs start = drop (js_index (length xs) start) xs"

text \<open>
  The \<open>%\<close> operator on two non-negative integers. A zero divisor gives \<open>NaN\<close>,
  which is \<open>None\<close> here.
\<close>

definition js_mod :: "nat \<Rightarrow> nat \<Rightarrow> nat option" where
  "js_mod a b = (if b = 0 then None else Some (a mod b))"

subsection \<open>CRC-32\<close>

text \<open>
  \<open>crc.crc32(buf, previous)\<close> of the \<open>crc\<close> package, as the data model describes it:
  the IEEE 802.3 polynomial (reflected, \<open>0xEDB88320\<close>), initial value and final
  XOR \<open>0xFFFFFFFF\<close>. With a previous value the computation continues from it.
\<close>

definition crc32_bit :: "crc \<Rightarrow> crc" where
  "crc32_bit c = (if c AND 1 = 1 then drop_bit 1 c XOR 0xEDB88320 else drop_bit 1 c)"

definition crc32_byte :: "byte \<Rightarrow> crc \<Rightarrow> crc" where
  "crc32_byte b c =
     crc32_bit (crc32_bit (crc32_bit (crc32_bit
       (crc32_bit (crc32_bit (crc32_bit (crc32_bit (c XOR ucast b))))))))"

definition crc_crc32_from :: "crc \<Rightarrow> byte list \<Rightarrow> crc" where
  "crc_crc32_from previous buf = NOT (fold crc32_byte buf (NOT previous))"

definition crc_crc32 :: "byte list \<Rightarrow> crc" where
  "crc_crc32 buf = crc_crc32_from 0 buf"

section \<open>dfuTransport.js: the pure helpers\<close>

datatype ObjectType = COMMAND | DATA

text \<open>The response of the SELECT command, as the control point service decodes it.\<close>

datatype selectResponse = SelectResponse (maximumSize: nat) (selOffset: nat) (selCrc32: crc)

text \<open>The progress \<open>{offset, crc32}\<close> that the object writer reports.\<close>

record progress =
  offset :: int
  crc32 :: crc

text \<open>
  \<open>_getRemainingPartialObject\<close>. With \<open>maximumSize = 0\<close> the remainder is \<open>NaN\<close>:
  it is not \<open>=== 0\<close>, and \<open>slice(offset, NaN)\<close> ends at index 0.
\<close>

definition getRemainingPartialObject :: "'a list \<Rightarrow> nat \<Rightarrow> nat \<Rightarrow> 'a list" where
  "getRemainingPartialObject data maxSize off =
     (let remainder = js_mod off maxSize
      in if off = 0 \<or> remainder = Some 0 \<or> off = length data then []
         else (case remainder of
                 None \<Rightarrow> js_slice data (int off) 0
               | Some r \<Rightarrow> js_slice data (int off) (int off + int maxSize - int r)))"

text \<open>\<open>_canResumePartiallyWrittenObject\<close>.\<close>

definition canResumePartiallyWrittenObject :: "byte list \<Rightarrow> nat \<Rightarrow> crc \<Rightarrow> bool" where
  "canResumePartiallyWrittenObject data off c =
     (if off = 0 \<or> off > length data \<or> c \<noteq> crc_crc32 (js_slice data 0 (int off))
      then False else True)"


text \<open>\<open>_getObjectTypeString\<close>.\<close>

definition getObjectTypeString :: "ObjectType \<Rightarrow> string" where
  "getObjectTypeString t = (case t of COMMAND \<Rightarrow> ''init packet'' | DATA \<Rightarrow> ''firmware'')"

text \<open>
  Modelled from the spec: \<open>splitArray\<close> of \<open>util/arrayUtil.js\<close> is not among the
  sources. The data model partitions a payload of length \<open>L\<close> into \<open>\<lceil>L/M\<rceil>\<close> objects of
  lengths \<open>M, M, \<dots>, (L mod M or M)\<close>. It gives no result for a chunk size of 0; the
  model returns no chunk there.
\<close>

function splitArray :: "'a list \<Rightarrow> nat \<Rightarrow> 'a list list" where
  "splitArray data chunkSize =
     (if data = [] \<or> chunkSize = 0 then []
      else take chunkSize data # splitArray (drop chunkSize data) chunkSize)"
  by pat_completeness auto
termination
  by (relation "measure (\<lambda>(data, chunkSize). length data)") auto

declare splitArray.simps [simp del]

text \<open>The state that \<open>_getFirmwareState\<close> returns: \<open>{offset, crc32, objects, partialObject}\<close>.\<close>

record firmwareState = progress +
  objects :: "byte list list"
  partialObject :: "byte list"

definition getFirmwareState :: "byte list \<Rightarrow> selectResponse \<Rightarrow> firmwareState" where
  "getFirmwareState firmware response =
     (case response of SelectResponse maxSize off c \<Rightarrow>
        let partialObject0 = getRemainingPartialObject firmware maxSize off;
            rollback = (partialObject0 \<noteq> [] \<and> \<not> canResumePartiallyWrittenObject firmware off c);
            startOffset = (if rollback then int off - int maxSize + int (length partialObject0)
                           else int off);
            startCrc32 = (if rollback then crc_crc32 (js_slice firmware 0 startOffset) else c);
            partialObject1 = (if rollback then [] else partialObject0);
            dataToSend = js_slice_from firmware (startOffset + int (length partialObject1))
        in \<lparr>offset = startOffset, crc32 = startCrc32,
            objects = splitArray dataToSend maxSize, partialObject = partialObject1\<rparr>)"

text \<open>
  The start of the object that holds the byte at \<open>off\<close>, when the payload is cut into
  objects of \<open>maxSize\<close> bytes: the last object boundary at or before \<open>off\<close>.
\<close>

definition lastObjectBoundary :: "nat \<Rightarrow> nat \<Rightarrow> nat" where
  "lastObjectBoundary maxSize off = off - off mod maxSize"

section \<open>Errors\<close>

text \<open>
  Modelled from the spec: \<open>dfuConstants.js\<close> is not among the sources. The error
  kinds are those of the error handling design: one code per failure of the client and
  one per result code of the target other than SUCCESS.
\<close>

datatype ErrorCode =
    ABORTED | NOTIFICATION_TIMEOUT | NOTIFICATION_START_ERROR | NOTIFICATION_STOP_ERROR
  | INVALID_OFFSET | INVALID_CRC | INIT_PACKET_TOO_LARGE | PACKAGE_INVALID
  | INVALID_CODE | OPCODE_NOT_SUPPORTED | INVALID_PARAMETER | INSUFFICIENT_RESOURCES
  | INVALID_OBJECT | UNSUPPORTED_TYPE | OPERATION_NOT_PERMITTED | OPERATION_FAILED

text \<open>
  A JavaScript error value: one made by \<open>createError(code, message)\<close> (the message is
  not modelled), one made by \<open>new Error(message)\<close>, a \<open>TypeError\<close> or
  \<open>SyntaxError\<close> of the runtime, or an error that an external library reports.
\<close>

datatype js_error =
    DfuError ErrorCode
  | JsError string
  | TypeError
  | SyntaxError
  | ExternalError string

text \<open>\<open>error.code\<close>: undefined (\<open>None\<close>) on errors that carry no code.\<close>

fun code :: "js_error \<Rightarrow> ErrorCode option" where
  "code (DfuError c) = Some c"
| "code _ = None"

section \<open>dfuTransport.js: the transport and what it drives\<close>

text \<open>
  What the transport asks of its collaborators, in the order it asks: the adapter's
  notification switches, the commands of the control point service, the object
  writer, and the progress events it emits itself.
\<close>

datatype command =
    StartNotifications
  | StopNotifications
  | SELECT ObjectType
  | CREATE ObjectType nat
  | SET_PRN nat
  | CALCULATE_CRC
  | EXECUTE
  | WriteObject "byte list" ObjectType "int option" "crc option"
  | WriterSetPrn nat
  | ProgressUpdate string int

text \<open>
  The collaborators (adapter, \<open>ControlPointService\<close>, \<open>DfuObjectWriter\<close>) are outside
  the transport: each is a function of a device state \<open>'d\<close> that answers with an error
  or a value. An argument that the caller leaves out is \<open>undefined\<close>, here \<open>None\<close>.
\<close>

record 'd collaborators =
  startCharacteristicsNotifications :: "'d \<Rightarrow> (js_error + unit) \<times> 'd"
  stopCharacteristicsNotifications :: "'d \<Rightarrow> (js_error + unit) \<times> 'd"
  selectObject :: "ObjectType \<Rightarrow> 'd \<Rightarrow> (js_error + selectResponse) \<times> 'd"
  createObject :: "ObjectType \<Rightarrow> nat \<Rightarrow> 'd \<Rightarrow> (js_error + unit) \<times> 'd"
  setPRN :: "nat \<Rightarrow> 'd \<Rightarrow> (js_error + unit) \<times> 'd"
  calculateChecksum :: "'d \<Rightarrow> (js_error + progress) \<times> 'd"
  execute :: "'d \<Rightarrow> (js_error + unit) \<times> 'd"
  writerWriteObject ::
    "byte list \<Rightarrow> ObjectType \<Rightarrow> int option \<Rightarrow> crc option \<Rightarrow> 'd \<Rightarrow> (js_error + progress) \<times> 'd"

text \<open>
  The transport object: the \<open>_isOpen\<close> field, the device it talks to, and the record
  of every command issued so far, each with whether it succeeded.
\<close>

record 'd transport =
  isOpen :: bool
  issued :: "(command \<times> bool) list"
  device :: 'd

text \<open>The constructor.\<close>

definition newTransport :: "'d \<Rightarrow> 'd transport" where
  "newTransport d = \<lparr>isOpen = False, issued = [], device = d\<rparr>"

text \<open>A promise is a computation on the transport that ends in an error or a value.\<close>

type_synonym ('d, 'a) promise = "'d transport \<Rightarrow> (js_error + 'a) \<times> 'd transport"

definition resolve :: "'a \<Rightarrow> ('d, 'a) promise" where
  "resolve a t = (Inr a, t)"

definition reject :: "js_error \<Rightarrow> ('d, 'a) promise" where
  "reject e t = (Inl e, t)"

text \<open>\<open>p.then(f)\<close>: a rejection skips \<open>f\<close>.\<close>

definition andThen :: "('d, 'a) promise \<Rightarrow> ('a \<Rightarrow> ('d, 'b) promise) \<Rightarrow> ('d, 'b) promise" where
  "andThen p f t = (case p t of (Inl e, t') \<Rightarrow> (Inl e, t') | (Inr a, t') \<Rightarrow> f a t')"

text \<open>Asking a collaborator: the command is recorded with its outcome.\<close>

definition succeeded :: "js_error + 'a \<Rightarrow> bool" where
  "succeeded r = (case r of Inl e \<Rightarrow> False | Inr a \<Rightarrow> True)"

definition issue :: "command \<Rightarrow> ('d \<Rightarrow> (js_error + 'a) \<times> 'd) \<Rightarrow> ('d, 'a) promise" where
  "issue c f t =
     (case f (device t) of
        (r, d') \<Rightarrow> (r, t\<lparr>issued := issued t @ [(c, succeeded r)], device := d'\<rparr>))"

text \<open>\<open>this.emit('progressUpdate', {stage, offset})\<close>.\<close>

definition emit :: "string \<Rightarrow> int \<Rightarrow> 'd transport \<Rightarrow> 'd transport" where
  "emit stage off t = t\<lparr>issued := issued t @ [(ProgressUpdate stage off, True)]\<rparr>"

definition emitResumeEvent :: "int \<Rightarrow> ObjectType \<Rightarrow> 'd transport \<Rightarrow> 'd transport" where
  "emitResumeEvent off type =
     emit (''Resuming '' @ getObjectTypeString type @ '' transfer'') off"

definition emitInitializeEvent :: "ObjectType \<Rightarrow> 'd transport \<Rightarrow> 'd transport" where
  "emitInitializeEvent type = emit (''Initializing '' @ getObjectTypeString type) 0"


text \<open>
  \<open>_open\<close> and \<open>close\<close>. Neither assigns \<open>_isOpen\<close>: the constructor is the only
  place of the class that writes the field.
\<close>

definition open_transport :: "'d collaborators \<Rightarrow> ('d, unit) promise" where
  "open_transport env t =
     (if isOpen t then resolve () t
      else issue StartNotifications
             (\<lambda>d. case startCharacteristicsNotifications env d of
                     (Inl error, d') \<Rightarrow> (Inl (DfuError NOTIFICATION_START_ERROR), d')
                   | (Inr u, d') \<Rightarrow> (Inr (), d')) t)"

definition close :: "'d collaborators \<Rightarrow> ('d, unit) promise" where
  "close env t =
     (if \<not> isOpen t then resolve () t
      else issue StopNotifications
             (\<lambda>d. case stopCharacteristicsNotifications env d of
                     (Inl error, d') \<Rightarrow> (Inl (DfuError NOTIFICATION_STOP_ERROR), d')
                   | (Inr u, d') \<Rightarrow> (Inr (), d')) t)"

text \<open>\<open>setPrn\<close>: the target first, then the writer's own setting.\<close>

definition setPrn :: "'d collaborators \<Rightarrow> nat \<Rightarrow> ('d, unit) promise" where
  "setPrn env prn =
     andThen (open_transport env) (\<lambda>u.
     andThen (issue (SET_PRN prn) (setPRN env prn)) (\<lambda>u.
     issue (WriterSetPrn prn) (\<lambda>d. (Inr (), d))))"

text \<open>\<open>_validateProgress\<close>: the offset is compared first.\<close>

definition validateProgress :: "'d collaborators \<Rightarrow> progress \<Rightarrow> ('d, unit) promise" where
  "validateProgress env progressInfo =
     andThen (issue CALCULATE_CRC (calculateChecksum env)) (\<lambda>response.
       if offset progressInfo \<noteq> offset response then reject (DfuError INVALID_OFFSET)
       else if crc32 progressInfo \<noteq> crc32 response then reject (DfuError INVALID_CRC)
       else resolve ())"

text \<open>\<open>_writeObject\<close>.\<close>

definition writeObject ::
  "'d collaborators \<Rightarrow> byte list \<Rightarrow> ObjectType \<Rightarrow> int option \<Rightarrow> crc option \<Rightarrow> ('d, progress) promise"
where
  "writeObject env data type off c =
     andThen (issue (WriteObject data type off c) (writerWriteObject env data type off c))
       (\<lambda>progress.
          andThen (validateProgress env progress) (\<lambda>u.
          andThen (issue EXECUTE (execute env)) (\<lambda>u.
          resolve progress)))"

definition MAX_RETRIES :: nat where
  "MAX_RETRIES = 3"

text \<open>\<open>_shouldRetry\<close>.\<close>

definition shouldRetry :: "nat \<Rightarrow> js_error \<Rightarrow> bool" where
  "shouldRetry attempts error =
     (if attempts < MAX_RETRIES \<and> code error \<noteq> Some ABORTED
         \<and> code error \<noteq> Some NOTIFICATION_TIMEOUT
      then True else False)"

text \<open>
  \<open>_createAndWriteObject\<close>. One attempt is the chain
  \<open>createObject(type, data.length).then(() => this._writeObject(\<dots>))\<close>; \<open>tryWrite\<close>
  runs it, and in the \<open>catch\<close> counts the attempt and decides whether to run it again.
\<close>

definition createThenWrite ::
  "'d collaborators \<Rightarrow> byte list \<Rightarrow> ObjectType \<Rightarrow> int option \<Rightarrow> crc option \<Rightarrow> ('d, progress) promise"
where
  "createThenWrite env data type off c =
     andThen (issue (CREATE type (length data)) (createObject env type (length data)))
       (\<lambda>u. writeObject env data type off c)"

function tryWrite ::
  "'d collaborators \<Rightarrow> byte list \<Rightarrow> ObjectType \<Rightarrow> int option \<Rightarrow> crc option \<Rightarrow> nat
     \<Rightarrow> ('d, progress) promise"
where
  "tryWrite env data type off c attempts t =
     (case createThenWrite env data type off c t of
        (Inr progress, t') \<Rightarrow> (Inr progress, t')
      | (Inl error, t') \<Rightarrow>
          (if shouldRetry (attempts + 1) error
           then tryWrite env data type off c (attempts + 1) t'
           else (Inl error, t')))"
  by pat_completeness auto
termination
  by (relation "measure (\<lambda>(env, data, type, off, c, attempts, t). MAX_RETRIES - attempts)")
     (auto simp: shouldRetry_def split: if_splits)

declare tryWrite.simps [simp del]

definition createAndWriteObject ::
  "'d collaborators \<Rightarrow> byte list \<Rightarrow> ObjectType \<Rightarrow> int option \<Rightarrow> crc option \<Rightarrow> ('d, progress) promise"
where
  "createAndWriteObject env data type off c = tryWrite env data type off c 0"

text \<open>
  \<open>_createAndWriteObjects\<close>: the \<open>reduce\<close> chains one promise per object, starting
  from \<open>Promise.resolve({offset, crc32})\<close>.
\<close>

definition createAndWriteObjects ::
  "'d collaborators \<Rightarrow> byte list list \<Rightarrow> ObjectType \<Rightarrow> int \<Rightarrow> crc \<Rightarrow> ('d, progress) promise"
where
  "createAndWriteObjects env objs type off c =
     foldl (\<lambda>prevPromise object.
              andThen prevPromise (\<lambda>progress.
                createAndWriteObject env object type
                  (Some (offset progress)) (Some (crc32 progress))))
       (resolve \<lparr>offset = off, crc32 = c\<rparr>) objs"

text \<open>\<open>sendInitPacket\<close>. The size check throws inside the \<open>then\<close>, which rejects.\<close>

definition sendInitPacket :: "'d collaborators \<Rightarrow> byte list \<Rightarrow> ('d, progress) promise" where
  "sendInitPacket env initPacket t =
     andThen (open_transport env) (\<lambda>u.
     andThen (issue (SELECT COMMAND) (selectObject env COMMAND)) (\<lambda>response.
       case response of SelectResponse maxSize off c \<Rightarrow>
         if length initPacket > maxSize then reject (DfuError INIT_PACKET_TOO_LARGE)
         else if canResumePartiallyWrittenObject initPacket off c
         then (\<lambda>t'. writeObject env (js_slice_from initPacket (int off)) COMMAND
                      (Some (int off)) (Some c) (emitResumeEvent (int off) COMMAND t'))
         else createAndWriteObject env initPacket COMMAND None None))
       (emitInitializeEvent COMMAND t)"

text \<open>\<open>sendFirmware\<close>.\<close>

definition sendFirmware :: "'d collaborators \<Rightarrow> byte list \<Rightarrow> ('d, progress) promise" where
  "sendFirmware env firmware t =
     andThen (open_transport env) (\<lambda>u.
     andThen (issue (SELECT DATA) (selectObject env DATA)) (\<lambda>response.
       let state = getFirmwareState firmware response
       in if partialObject state \<noteq> []
          then (\<lambda>t'. andThen (writeObject env (partialObject state) DATA
                                (Some (offset state)) (Some (crc32 state)))
                        (\<lambda>progress. createAndWriteObjects env (objects state) DATA
                                       (offset progress) (crc32 progress))
                        (emitResumeEvent (offset state) DATA t'))
          else createAndWriteObjects env (objects state) DATA (offset state) (crc32 state)))
       (emitInitializeEvent DATA t)"


subsection \<open>A target that behaves\<close>

text \<open>
  Modelled from the spec: a target and an object writer to run the transport against
  (\<open>dfuObjectWriter.js\<close> and \<open>controlPointService.js\<close> are not among the sources).
  The writer returns \<open>(offset_in + len(bytes), crc32_update(crc_in, bytes))\<close>, a seed
  left undefined counting as 0; the target reports on CALCULATE_CRC what it received
  last, answers SELECT with the given response, and fails the next \<open>executeFailures\<close>
  EXECUTE commands with OPERATION_FAILED.
\<close>

record target =
  received :: progress
  executeFailures :: nat

definition targetExecute :: "target \<Rightarrow> (js_error + unit) \<times> target" where
  "targetExecute d =
     (if executeFailures d > 0
      then (Inl (DfuError OPERATION_FAILED), d\<lparr>executeFailures := executeFailures d - 1\<rparr>)
      else (Inr (), d))"

definition targetWrite ::
  "byte list \<Rightarrow> ObjectType \<Rightarrow> int option \<Rightarrow> crc option \<Rightarrow> target \<Rightarrow> (js_error + progress) \<times> target"
where
  "targetWrite data type off c d =
     (let p = \<lparr>offset = (case off of None \<Rightarrow> 0 | Some v \<Rightarrow> v) + int (length data),
               crc32 = crc_crc32_from (case c of None \<Rightarrow> 0 | Some v \<Rightarrow> v) data\<rparr>
      in (Inr p, d\<lparr>received := p\<rparr>))"

definition targetEnv :: "selectResponse \<Rightarrow> target collaborators" where
  "targetEnv answer =
     \<lparr>startCharacteristicsNotifications = (\<lambda>d. (Inr (), d)),
      stopCharacteristicsNotifications = (\<lambda>d. (Inr (), d)),
      selectObject = (\<lambda>type d. (Inr answer, d)),
      createObject = (\<lambda>type n d. (Inr (), d)),
      setPRN = (\<lambda>prn d. (Inr (), d)),
      calculateChecksum = (\<lambda>d. (Inr (received d), d)),
      execute = targetExecute,
      writerWriteObject = targetWrite\<rparr>"

definition freshTarget :: "nat \<Rightarrow> target" where
  "freshTarget n = \<lparr>received = \<lparr>offset = 0, crc32 = 0\<rparr>, executeFailures = n\<rparr>"

text \<open>The commands of a record of issued commands, and those that succeeded.\<close>

definition commands :: "(command \<times> bool) list \<Rightarrow> command list" where
  "commands l = map fst l"

definition successes :: "command \<Rightarrow> (command \<times> bool) list \<Rightarrow> nat" where
  "successes c l = length (filter (\<lambda>e. e = (c, True)) l)"

text \<open>What a promise run from \<open>t\<close> adds to the record of issued commands.\<close>

definition newlyIssued :: "'d transport \<Rightarrow> 'd transport \<Rightarrow> (command \<times> bool) list" where
  "newlyIssued t t' = drop (length (issued t)) (issued t')"

definition isCreate :: "command \<Rightarrow> bool" where
  "isCreate c = (case c of CREATE type n \<Rightarrow> True | _ \<Rightarrow> False)"

text \<open>The number of CREATE commands in a record of issued commands.\<close>

definition creates :: "(command \<times> bool) list \<Rightarrow> nat" where
  "creates l = length (filter isCreate (commands l))"

section \<open>dfu.js: reading the update package\<close>

text \<open>A value that \<open>JSON.parse\<close> returns. Numbers are kept to the integers.\<close>

datatype json =
    JNull | JBool bool | JNum int | JStr string | JArr "json list"
  | JObj "(string \<times> json) list"

text \<open>
  \<open>v[name]\<close> for a property name that no prototype defines: a \<open>TypeError\<close> on
  \<open>undefined\<close> and \<open>null\<close>, the member of an object, \<open>undefined\<close> otherwise.
\<close>

fun getProperty :: "json option \<Rightarrow> string \<Rightarrow> js_error + json option" where
  "getProperty None name = Inl TypeError"
| "getProperty (Some JNull) name = Inl TypeError"
| "getProperty (Some (JObj members)) name = Inr (map_of members name)"
| "getProperty (Some v) name = Inr None"

text \<open>The truth value of \<open>if (v)\<close>.\<close>

fun truthy :: "json option \<Rightarrow> bool" where
  "truthy None = False"
| "truthy (Some JNull) = False"
| "truthy (Some (JBool b)) = b"
| "truthy (Some (JNum n)) = (n \<noteq> 0)"
| "truthy (Some (JStr s)) = (s \<noteq> [])"
| "truthy (Some v) = True"

text \<open>
  An archive as JSZip presents it: \<open>zip.file(name)\<close> is \<open>null\<close> for a missing entry,
  and \<open>async\<close> on an entry gives its content or rejects.
\<close>

type_synonym zip = "string \<Rightarrow> (js_error + string) option"

text \<open>The libraries the reader calls: \<open>fs.readFile\<close>, \<open>JSZip.loadAsync\<close>, \<open>JSON.parse\<close>.\<close>

record libraries =
  readFile :: "string \<Rightarrow> js_error + string"
  loadAsync :: "string \<Rightarrow> js_error + zip"
  jsonParse :: "string \<Rightarrow> js_error + json"

text \<open>\<open>_loadZip\<close>: what the callback is called with first.\<close>

definition loadZip :: "libraries \<Rightarrow> string \<Rightarrow> js_error + zip" where
  "loadZip lib zipFilePath =
     (case readFile lib zipFilePath of
        Inl err \<Rightarrow> Inl err
      | Inr data \<Rightarrow> loadAsync lib data)"

text \<open>The argument \<open>zipFilePath\<close> of \<open>getManifest\<close>: any JavaScript value.\<close>

datatype argument = Undefined | StringValue string | OtherValue

text \<open>
  What a call of \<open>getManifest\<close> does: it throws before it returns, or it calls the
  callback with an error, or with \<open>undefined\<close> and the manifest.
\<close>

datatype manifestOutcome =
    Throws js_error
  | CallbackError js_error
  | CallbackManifest "json option"

text \<open>
  \<open>getManifest\<close>. With no \<open>manifest.json\<close> in the archive, \<open>zip.file\<close> returns
  \<open>null\<close> and \<open>.async\<close> throws a \<open>TypeError\<close> inside the callback given to
  \<open>_loadZip\<close>; the \<open>catch\<close> of \<open>_loadZip\<close> calls that callback again with the error.
\<close>

definition getManifest :: "libraries \<Rightarrow> argument \<Rightarrow> manifestOutcome" where
  "getManifest lib zipFilePath =
     (case zipFilePath of
        Undefined \<Rightarrow> Throws (JsError ''Missing argument zipFilePath.'')
      | OtherValue \<Rightarrow> Throws (JsError ''zipFilePath must be a non-empty string.'')
      | StringValue path \<Rightarrow>
          if length path = 0 then Throws (JsError ''zipFilePath must be a non-empty string.'')
          else (case loadZip lib path of
                  Inl err \<Rightarrow> CallbackError err
                | Inr archive \<Rightarrow>
                    (case archive ''manifest.json'' of
                       None \<Rightarrow> CallbackError TypeError
                     | Some (Inl err) \<Rightarrow> CallbackError err
                     | Some (Inr data) \<Rightarrow>
                         (case jsonParse lib data of
                            Inl err \<Rightarrow> CallbackError err
                          | Inr root \<Rightarrow>
                              (case getProperty (Some root) ''manifest'' of
                                 Inl err \<Rightarrow> CallbackError err
                               | Inr manifest \<Rightarrow> CallbackManifest manifest)))))"

text \<open>\<open>_getManifestAsync\<close>: a throw inside the executor rejects the promise.\<close>

definition getManifestAsync :: "libraries \<Rightarrow> string \<Rightarrow> js_error + json option" where
  "getManifestAsync lib zipFilePath =
     (case getManifest lib (StringValue zipFilePath) of
        Throws err \<Rightarrow> Inl err
      | CallbackError err \<Rightarrow> Inl err
      | CallbackManifest manifest \<Rightarrow> Inr manifest)"

text \<open>
  An update as \<open>_fetchUpdates\<close> pushes it. Its two members are the functions
  \<open>() => zip.file(update[field]).async('binarystring')\<close>, which \<open>Promise.all\<close> passes
  on without calling them: each is kept as the manifest entry and the field it would
  read.
\<close>

datatype fileReader = FileReader json string

record update =
  initPacket :: fileReader
  firmware :: fileReader

definition makeUpdate :: "json \<Rightarrow> update" where
  "makeUpdate entry =
     \<lparr>initPacket = FileReader entry ''dat_file'', firmware = FileReader entry ''bin_file''\<rparr>"

definition updateTypes :: "string list" where
  "updateTypes = [''softdevice'', ''bootloader'', ''softdevice_bootloader'', ''application'']"

text \<open>
  The loop of \<open>_fetchUpdates\<close> over the update types: \<open>createUpdatePromise\<close> reads
  \<open>manifest[updateType]\<close> and pushes an update when the entry is truthy.
\<close>

fun createUpdates :: "json option \<Rightarrow> update list \<Rightarrow> string list \<Rightarrow> js_error + update list" where
  "createUpdates manifest updates [] = Inr updates"
| "createUpdates manifest updates (updateType # rest) =
     (case getProperty manifest updateType of
        Inl err \<Rightarrow> Inl err
      | Inr entry \<Rightarrow>
          createUpdates manifest
            (if truthy entry then updates @ [makeUpdate (the entry)] else updates) rest)"

text \<open>
  How the promise of \<open>_fetchUpdates\<close> ends. A rejection of the chain of update
  promises has no handler: the promise returned to the caller then never settles.
\<close>

datatype fetchOutcome =
    Rejected js_error
  | Resolved "update list"
  | Unsettled js_error

text \<open>
  \<open>_fetchUpdates\<close>: \<open>Promise.all\<close> of the archive and the manifest, then the loop.
  A throw of \<open>getManifest\<close> rejects at once, before the file is read.
\<close>

definition fetchUpdates :: "libraries \<Rightarrow> string \<Rightarrow> fetchOutcome" where
  "fetchUpdates lib zipFilePath =
     (case getManifest lib (StringValue zipFilePath) of
        Throws err \<Rightarrow> Rejected err
      | outcome \<Rightarrow>
          (case loadZip lib zipFilePath of
             Inl err \<Rightarrow> Rejected err
           | Inr archive \<Rightarrow>
               (case getManifestAsync lib zipFilePath of
                  Inl err \<Rightarrow> Rejected err
                | Inr manifest \<Rightarrow>
                    (case createUpdates manifest [] updateTypes of
                       Inl err \<Rightarrow> Unsettled err
                     | Inr updates \<Rightarrow> Resolved updates))))"


subsection \<open>A package to read\<close>

text \<open>
  Libraries that find a file at every path, unpack it to the given archive entries
  and parse every text with the given parser.
\<close>

definition packageLibraries ::
  "(string \<times> (js_error + string)) list \<Rightarrow> (string \<Rightarrow> js_error + json) \<Rightarrow> libraries" where
  "packageLibraries entries parse =
     \<lparr>readFile = (\<lambda>path. Inr ''PK''), loadAsync = (\<lambda>data. Inr (map_of entries)),
      jsonParse = parse\<rparr>"

text \<open>A manifest entry \<open>{bin_file, dat_file}\<close>.\<close>

definition firmwareEntry :: "string \<Rightarrow> json" where
  "firmwareEntry name =
     JObj [(''bin_file'', JStr (name @ ''.bin'')), (''dat_file'', JStr (name @ ''.dat''))]"

section \<open>Slices and the partial object\<close>

lemma js_slice_nat: "js_slice xs (int a) (int b) = take (b - a) (drop a xs)"
  by (auto simp: js_slice_def js_index_def Let_def min_def)

lemma js_slice_from_nat: "js_slice_from xs (int a) = drop a xs"
  by (simp add: js_slice_from_def js_index_def min_def)

lemma js_slice_prefix: "js_slice xs 0 (int b) = take b xs"
  using js_slice_nat [of xs 0 b] by simp

lemma partialObject_slice:
  "getRemainingPartialObject data maxSize off =
     (if off \<noteq> 0 \<and> off \<noteq> length data \<and> maxSize \<noteq> 0 \<and> off mod maxSize \<noteq> 0
      then take (maxSize - off mod maxSize) (drop off data) else [])"
proof (cases "maxSize = 0")
  case True
  then show ?thesis
    by (auto simp: getRemainingPartialObject_def js_mod_def js_slice_def js_index_def Let_def)
next
  case False
  then have r: "off mod maxSize < maxSize" by simp
  have "int off + int maxSize - int (off mod maxSize) = int (off + maxSize - off mod maxSize)"
    using r by simp
  then have "js_slice data (int off) (int off + int maxSize - int (off mod maxSize))
             = take (maxSize - off mod maxSize) (drop off data)"
    using r by (simp only: js_slice_nat) simp
  with False show ?thesis
    by (auto simp: getRemainingPartialObject_def js_mod_def Let_def)
qed

text \<open>
  C7. For every payload, maximum object size and acknowledged offset, the remaining
  partial object is \<open>data[offset .. offset + maxSize - (offset mod maxSize)]\<close> when the
  offset is neither 0 nor the length of the payload and \<open>offset mod maxSize \<noteq> 0\<close>, and
  it is empty otherwise. The slice is written with \<open>take\<close> and \<open>drop\<close>; for a
  maximum size of 0 both sides are empty.
\<close>

theorem getRemainingPartialObject_spec:
  "getRemainingPartialObject data maxSize off =
     (if off \<noteq> 0 \<and> off \<noteq> length data \<and> off mod maxSize \<noteq> 0
      then take (maxSize - off mod maxSize) (drop off data) else [])"
  by (cases "maxSize = 0") (auto simp: partialObject_slice)

lemma canResume_iff:
  "canResumePartiallyWrittenObject data off c \<longleftrightarrow>
     0 < off \<and> off \<le> length data \<and> c = crc_crc32 (take off data)"
  by (auto simp: canResumePartiallyWrittenObject_def js_slice_prefix)

section \<open>The firmware state after a SELECT\<close>

text \<open>
  The rollback as the code computes it: with a partial object to write and a checksum
  that does not match, the state starts at \<open>offset - maxSize + length partial\<close>, with
  the checksum of the payload up to there and no partial object.
\<close>

lemma getFirmwareState_rollback:
  assumes "getRemainingPartialObject fw maxSize off \<noteq> []"
      and "c \<noteq> crc_crc32 (take off fw)"
  shows "offset (getFirmwareState fw (SelectResponse maxSize off c))
           = int off - int maxSize + int (length (getRemainingPartialObject fw maxSize off))"
    and "crc32 (getFirmwareState fw (SelectResponse maxSize off c))
           = crc_crc32 (js_slice fw 0 (offset (getFirmwareState fw (SelectResponse maxSize off c))))"
    and "partialObject (getFirmwareState fw (SelectResponse maxSize off c)) = []"
  using assms by (simp_all add: getFirmwareState_def Let_def canResume_iff)

text \<open>
  That start is the boundary of the open object when the whole object lies inside
  the payload, which is every object but a shorter last one.
\<close>

lemma getFirmwareState_rollback_boundary:
  assumes "getRemainingPartialObject fw maxSize off \<noteq> []"
      and "c \<noteq> crc_crc32 (take off fw)"
      and "off - off mod maxSize + maxSize \<le> length fw"
  shows "offset (getFirmwareState fw (SelectResponse maxSize off c))
           = int (lastObjectBoundary maxSize off)"
proof -
  from assms(1) have ne: "off \<noteq> 0" "off \<noteq> length fw" "off mod maxSize \<noteq> 0"
    and p: "getRemainingPartialObject fw maxSize off
              = take (maxSize - off mod maxSize) (drop off fw)"
    by (auto simp: partialObject_slice split: if_splits)
  have m: "maxSize \<noteq> 0" using assms(1) p by (cases "maxSize = 0") auto
  then have r: "off mod maxSize < maxSize" by simp
  have le: "off mod maxSize \<le> off" by simp
  have "length (getRemainingPartialObject fw maxSize off) = maxSize - off mod maxSize"
    unfolding p using assms(3) r le by (simp add: min_def) arith
  then show ?thesis
    using getFirmwareState_rollback(1) [OF assms(1,2)] r le
    by (simp add: lastObjectBoundary_def)
qed

lemma crc_of_five: "crc_crc32 [1, 2, 3, 4, 5] \<noteq> 0"
  by (simp add: crc_crc32_def crc_crc32_from_def crc32_byte_def crc32_bit_def)

lemma partial_of_seven: "getRemainingPartialObject [1, 2, 3, 4, 5, 6, 7 :: byte] 4 5 = [6, 7]"
  by (simp add: partialObject_slice)

lemma split_of_four: "splitArray [4, 5, 6, 7 :: byte] 4 = [[4, 5, 6, 7]]"
  by (simp add: splitArray.simps)

text \<open>
  C1. A firmware of 7 bytes in objects of 4, and a target that reports offset 5 with
  a checksum that does not match: the open object is the last one, bytes 4 to 6, and
  the partial object to write is its remaining 2 bytes. The rollback starts at
  \<open>5 - 4 + 2 = 3\<close> and sends one object of 4 bytes from there, while the object
  boundary is at 4.
\<close>

theorem getFirmwareState_rollback_last_object:
  "getRemainingPartialObject [1, 2, 3, 4, 5, 6, 7 :: byte] 4 5 = [6, 7]
   \<and> crc_crc32 (take 5 [1, 2, 3, 4, 5, 6, 7]) \<noteq> 0
   \<and> offset (getFirmwareState [1, 2, 3, 4, 5, 6, 7] (SelectResponse 4 5 0)) = 3
   \<and> partialObject (getFirmwareState [1, 2, 3, 4, 5, 6, 7] (SelectResponse 4 5 0)) = []
   \<and> objects (getFirmwareState [1, 2, 3, 4, 5, 6, 7] (SelectResponse 4 5 0)) = [[4, 5, 6, 7]]
   \<and> lastObjectBoundary 4 5 = 4"
proof -
  have "getFirmwareState [1, 2, 3, 4, 5, 6, 7] (SelectResponse 4 5 0)
          = \<lparr>offset = 3, crc32 = crc_crc32 [1, 2, 3], objects = [[4, 5, 6, 7]],
             partialObject = []\<rparr>"
    using crc_of_five
    by (simp add: getFirmwareState_def partial_of_seven canResume_iff Let_def
        js_slice_prefix [of _ 3, simplified] js_slice_from_nat [of _ 3, simplified]
        split_of_four)
  then show ?thesis
    using crc_of_five by (simp add: partial_of_seven lastObjectBoundary_def)
qed

section \<open>Promises and issued commands\<close>

lemma newlyIssued_append: "issued t' = issued t @ l \<Longrightarrow> newlyIssued t t' = l"
  by (simp add: newlyIssued_def)

lemma issue_cases:
  assumes "issue c f t = (r, t')"
  obtains d' where "f (device t) = (r, d')"
    and "t' = t\<lparr>issued := issued t @ [(c, succeeded r)], device := d'\<rparr>"
  using assms by (auto simp: issue_def split: prod.splits)

lemma succeeded_simps [simp]: "succeeded (Inl e) = False" "succeeded (Inr a) = True"
  by (simp_all add: succeeded_def)

lemma andThen_Inr: "p t = (Inr a, t1) \<Longrightarrow> andThen p f t = f a t1"
  by (simp add: andThen_def)

lemma andThen_Inl: "p t = (Inl e, t1) \<Longrightarrow> andThen p f t = (Inl e, t1)"
  by (simp add: andThen_def)

lemma andThen_cases:
  assumes "andThen p f t = (r, t')"
  obtains (fails) e where "p t = (Inl e, t')" "r = Inl e"
        | (passes) a t1 where "p t = (Inr a, t1)" "f a t1 = (r, t')"
  using assms by (auto simp: andThen_def split: prod.splits sum.splits)

text \<open>The ways \<open>_validateProgress\<close> and \<open>_writeObject\<close> can end.\<close>

lemma validateProgress_cases:
  assumes "validateProgress env p t = (r, t')"
  obtains (calcFails) e d' where "calculateChecksum env (device t) = (Inl e, d')" "r = Inl e"
      "t' = t\<lparr>issued := issued t @ [(CALCULATE_CRC, False)], device := d'\<rparr>"
   | (answered) response d' where "calculateChecksum env (device t) = (Inr response, d')"
      "t' = t\<lparr>issued := issued t @ [(CALCULATE_CRC, True)], device := d'\<rparr>"
      "r = (if offset p \<noteq> offset response then Inl (DfuError INVALID_OFFSET)
            else if crc32 p \<noteq> crc32 response then Inl (DfuError INVALID_CRC) else Inr ())"
proof -
  from assms show ?thesis
    unfolding validateProgress_def
  proof (cases rule: andThen_cases)
    case (fails e)
    then show ?thesis
      by (elim issue_cases) (auto intro: calcFails)
  next
    case (passes a t1)
    from passes(1) show ?thesis
    proof (cases rule: issue_cases)
      case (1 d')
      with passes(2) show ?thesis
        by (intro answered [of a d']) (auto simp: reject_def resolve_def split: if_splits)
    qed
  qed
qed

lemma writeObject_cases:
  assumes "writeObject env data type off c t = (r, t')"
  obtains (writerFails) e d1 where
      "writerWriteObject env data type off c (device t) = (Inl e, d1)" "r = Inl e"
      "issued t' = issued t @ [(WriteObject data type off c, False)]" "device t' = d1"
      "isOpen t' = isOpen t"
   | (calcFails) p d1 e d2 where
      "writerWriteObject env data type off c (device t) = (Inr p, d1)"
      "calculateChecksum env d1 = (Inl e, d2)" "r = Inl e"
      "issued t' = issued t @ [(WriteObject data type off c, True), (CALCULATE_CRC, False)]"
      "device t' = d2" "isOpen t' = isOpen t"
   | (mismatch) p d1 response d2 where
      "writerWriteObject env data type off c (device t) = (Inr p, d1)"
      "calculateChecksum env d1 = (Inr response, d2)"
      "offset p \<noteq> offset response \<or> crc32 p \<noteq> crc32 response"
      "r = (if offset p \<noteq> offset response then Inl (DfuError INVALID_OFFSET)
            else Inl (DfuError INVALID_CRC))"
      "issued t' = issued t @ [(WriteObject data type off c, True), (CALCULATE_CRC, True)]"
      "device t' = d2" "isOpen t' = isOpen t"
   | (executed) p d1 response d2 x d3 where
      "writerWriteObject env data type off c (device t) = (Inr p, d1)"
      "calculateChecksum env d1 = (Inr response, d2)"
      "offset p = offset response" "crc32 p = crc32 response"
      "execute env d2 = (x, d3)"
      "r = (case x of Inl e \<Rightarrow> Inl e | Inr u \<Rightarrow> Inr p)"
      "issued t' = issued t @ [(WriteObject data type off c, True), (CALCULATE_CRC, True),
                               (EXECUTE, succeeded x)]"
      "device t' = d3" "isOpen t' = isOpen t"
proof -
  from assms show ?thesis
    unfolding writeObject_def
  proof (cases rule: andThen_cases)
    case (fails e)
    then show ?thesis
      by (elim issue_cases) (auto intro: writerFails)
  next
    case (passes p t1)
    from passes(1) obtain d1 where
      w: "writerWriteObject env data type off c (device t) = (Inr p, d1)"
      and t1: "t1 = t\<lparr>issued := issued t @ [(WriteObject data type off c, True)], device := d1\<rparr>"
      by (elim issue_cases) auto
    from passes(2) show ?thesis
    proof (cases rule: andThen_cases)
      case (fails e)
      from fails(1) show ?thesis
      proof (cases rule: validateProgress_cases)
        case (calcFails e' d')
        with fails w t1 show ?thesis
          by (intro that(2) [of p d1 e' d']) auto
      next
        case (answered response d')
        with fails w t1 show ?thesis
          by (intro mismatch [of p d1 response d']) (auto split: if_splits)
      qed
    next
      case (passes u t2)
      from passes(1) obtain response d2 where
        k: "calculateChecksum env (device t1) = (Inr response, d2)"
        and t2: "t2 = t1\<lparr>issued := issued t1 @ [(CALCULATE_CRC, True)], device := d2\<rparr>"
        and eq: "offset p = offset response" "crc32 p = crc32 response"
        by (cases rule: validateProgress_cases) (auto split: if_splits)
      from passes(2) show ?thesis
      proof (cases rule: andThen_cases)
        case (fails e)
        from fails(1) obtain d3 where "execute env (device t2) = (Inl e, d3)"
          "t' = t2\<lparr>issued := issued t2 @ [(EXECUTE, False)], device := d3\<rparr>"
          by (elim issue_cases) auto
        with fails w t1 k t2 eq show ?thesis
          by (intro executed [of p d1 response d2 "Inl e" d3]) auto
      next
        case (passes v t3)
        from passes(1) obtain d3 where "execute env (device t2) = (Inr v, d3)"
          "t3 = t2\<lparr>issued := issued t2 @ [(EXECUTE, True)], device := d3\<rparr>"
          by (elim issue_cases) auto
        with passes w t1 k t2 eq show ?thesis
          by (intro executed [of p d1 response d2 "Inr v" d3]) (auto simp: resolve_def)
      qed
    qed
  qed
qed

section \<open>Writing one object\<close>

text \<open>
  C5. The write-object procedure, for every data, type, offset and checksum: once the
  object writer has returned its progress, CALCULATE_CRC is issued and its response is
  compared with the progress; a different offset fails with INVALID_OFFSET, an equal
  offset with a different checksum fails with INVALID_CRC; EXECUTE is issued only when
  writer and target agree on both; and a successful run returns the progress of the
  writer, after an EXECUTE that succeeded.
\<close>

theorem writeObject_validates_before_execute:
  assumes "writeObject env data type off c t = (result, t')"
  shows "(\<forall>p d1. writerWriteObject env data type off c (device t) = (Inr p, d1) \<longrightarrow>
            take 2 (commands (newlyIssued t t')) = [WriteObject data type off c, CALCULATE_CRC]
            \<and> (\<forall>response d2. calculateChecksum env d1 = (Inr response, d2) \<longrightarrow>
                 (offset p \<noteq> offset response \<longrightarrow> result = Inl (DfuError INVALID_OFFSET))
                 \<and> (offset p = offset response \<and> crc32 p \<noteq> crc32 response \<longrightarrow>
                      result = Inl (DfuError INVALID_CRC))))
       \<and> (EXECUTE \<in> set (commands (newlyIssued t t')) \<longrightarrow>
            (\<exists>p d1 response d2.
               writerWriteObject env data type off c (device t) = (Inr p, d1)
               \<and> calculateChecksum env d1 = (Inr response, d2)
               \<and> offset p = offset response \<and> crc32 p = crc32 response))
       \<and> (\<forall>q. result = Inr q \<longrightarrow>
            fst (writerWriteObject env data type off c (device t)) = Inr q
            \<and> (EXECUTE, True) \<in> set (newlyIssued t t'))"
  using assms
proof (cases rule: writeObject_cases)
  case (writerFails e d1)
  then show ?thesis by (simp add: newlyIssued_append [OF writerFails(3)] commands_def)
next
  case (calcFails p d1 e d2)
  then show ?thesis by (simp add: newlyIssued_append [OF calcFails(4)] commands_def)
next
  case (mismatch p d1 response d2)
  then show ?thesis by (auto simp add: newlyIssued_append [OF mismatch(5)] commands_def)
next
  case (executed p d1 response d2 x d3)
  then show ?thesis
    by (auto simp add: newlyIssued_append [OF executed(7)] commands_def split: sum.splits)
qed

lemmas run_defs = writeObject_def validateProgress_def andThen_def issue_def resolve_def
  reject_def targetEnv_def targetWrite_def targetExecute_def freshTarget_def newTransport_def
  Let_def

lemmas transport_defs = sendFirmware_def sendInitPacket_def setPrn_def close_def open_transport_def
  createAndWriteObjects_def createAndWriteObject_def createThenWrite_def
  shouldRetry_def MAX_RETRIES_def emitInitializeEvent_def emitResumeEvent_def emit_def
  getObjectTypeString_def

theorem writeObject_validates_before_execute_witness:
  "fst (writeObject (targetEnv (SelectResponse 4 0 0)) [1] DATA None None (newTransport (freshTarget 0)))
     = Inr \<lparr>offset = 1, crc32 = crc_crc32_from 0 [1]\<rparr>
   \<and> fst (writerWriteObject (targetEnv (SelectResponse 4 0 0)) [1] DATA None None
            (device (newTransport (freshTarget 0))))
     = Inr \<lparr>offset = 1, crc32 = crc_crc32_from 0 [1]\<rparr>
   \<and> (EXECUTE, True) \<in> set (newlyIssued (newTransport (freshTarget 0))
         (snd (writeObject (targetEnv (SelectResponse 4 0 0)) [1] DATA None None
                (newTransport (freshTarget 0)))))"
proof -
  have f: "fst (writeObject (targetEnv (SelectResponse 4 0 0)) [1] DATA None None (newTransport (freshTarget 0)))
     = Inr \<lparr>offset = 1, crc32 = crc_crc32_from 0 [1]\<rparr>"
    by (simp add: run_defs)
  then have run: "writeObject (targetEnv (SelectResponse 4 0 0)) [1] DATA None None (newTransport (freshTarget 0))
     = (Inr \<lparr>offset = 1, crc32 = crc_crc32_from 0 [1]\<rparr>,
        snd (writeObject (targetEnv (SelectResponse 4 0 0)) [1] DATA None None
               (newTransport (freshTarget 0))))"
    by (metis prod.collapse)
  show ?thesis
    using writeObject_validates_before_execute [OF run] f by blast
qed

section \<open>Create and write, with retries\<close>

text \<open>What one attempt and what \<open>tryWrite\<close> add to the issued commands.\<close>

lemma successes_append: "successes c (l1 @ l2) = successes c l1 + successes c l2"
  by (simp add: successes_def)

lemma commands_append: "commands (l1 @ l2) = commands l1 @ commands l2"
  by (simp add: commands_def)

lemma creates_append: "creates (l1 @ l2) = creates l1 + creates l2"
  by (simp add: creates_def commands_def)

lemma writeObject_issued:
  assumes "writeObject env data type off c t = (r, t')"
  shows "\<exists>l. issued t' = issued t @ l \<and> isOpen t' = isOpen t
             \<and> successes EXECUTE l = (if succeeded r then 1 else 0) \<and> creates l = 0"
  using assms
proof (cases rule: writeObject_cases)
  case (writerFails e d1)
  then show ?thesis by (simp add: successes_def creates_def commands_def isCreate_def)
next
  case (calcFails p d1 e d2)
  then show ?thesis by (simp add: successes_def creates_def commands_def isCreate_def)
next
  case (mismatch p d1 response d2)
  then show ?thesis by (simp add: successes_def creates_def commands_def isCreate_def)
next
  case (executed p d1 response d2 x d3)
  then show ?thesis
    by (cases x) (simp_all add: successes_def creates_def commands_def isCreate_def)
qed

lemma createThenWrite_unfold:
  "createThenWrite env data type off c t =
     (case issue (CREATE type (length data)) (createObject env type (length data)) t of
        (Inl e, t1) \<Rightarrow> (Inl e, t1)
      | (Inr u, t1) \<Rightarrow> writeObject env data type off c t1)"
  by (simp add: createThenWrite_def andThen_def)

lemma createThenWrite_issued:
  assumes "createThenWrite env data type off c t = (r, t')"
  shows "\<exists>l. issued t' = issued t @ l \<and> isOpen t' = isOpen t
             \<and> successes EXECUTE l = (if succeeded r then 1 else 0) \<and> creates l = 1"
  using assms unfolding createThenWrite_def
proof (cases rule: andThen_cases)
  case (fails e)
  from fails(1) show ?thesis
    by (cases rule: issue_cases)
       (simp add: fails(2) successes_def creates_def commands_def isCreate_def)
next
  case (passes a t1)
  from passes(1) have t1: "issued t1 = issued t @ [(CREATE type (length data), True)]"
    "isOpen t1 = isOpen t"
    by (cases rule: issue_cases, simp)+
  from writeObject_issued [OF passes(2)] obtain l where
    "issued t' = issued t1 @ l" "isOpen t' = isOpen t1"
    "successes EXECUTE l = (if succeeded r then 1 else 0)" "creates l = 0"
    by blast
  with t1 show ?thesis
    by (simp add: successes_def creates_def commands_def isCreate_def)
qed

lemma tryWrite_success:
  "createThenWrite env data type off c t = (Inr p, t') \<Longrightarrow>
     tryWrite env data type off c attempts t = (Inr p, t')"
  by (simp add: tryWrite.simps)

lemma tryWrite_failure:
  "createThenWrite env data type off c t = (Inl error, t') \<Longrightarrow>
     tryWrite env data type off c attempts t =
       (if attempts + 1 < 3 \<and> code error \<noteq> Some ABORTED
           \<and> code error \<noteq> Some NOTIFICATION_TIMEOUT
        then tryWrite env data type off c (attempts + 1) t' else (Inl error, t'))"
  by (subst tryWrite.simps) (simp add: shouldRetry_def MAX_RETRIES_def)

lemma tryWrite_issued:
  "tryWrite env data type off c attempts t = (r, t') \<Longrightarrow>
     \<exists>l. issued t' = issued t @ l \<and> isOpen t' = isOpen t
         \<and> successes EXECUTE l = (if succeeded r then 1 else 0)
         \<and> 1 \<le> creates l \<and> creates l \<le> max 1 (3 - attempts)"
proof (induction env data type off c attempts t arbitrary: r t' rule: tryWrite.induct)
  case (1 env data type off c attempts t)
  obtain x t1 where a: "createThenWrite env data type off c t = (x, t1)"
    by (cases "createThenWrite env data type off c t")
  from createThenWrite_issued [OF a] obtain l1 where l1:
    "issued t1 = issued t @ l1" "isOpen t1 = isOpen t"
    "successes EXECUTE l1 = (if succeeded x then 1 else 0)" "creates l1 = 1"
    by blast
  show ?case
  proof (cases x)
    case (Inr p)
    with a "1.prems" have "r = Inr p" "t' = t1"
      by (simp_all add: tryWrite_success)
    with l1 Inr show ?thesis by auto
  next
    case (Inl error)
    show ?thesis
    proof (cases "shouldRetry (attempts + 1) error")
      case True
      with a Inl "1.prems" have again: "tryWrite env data type off c (attempts + 1) t1 = (r, t')"
        by (subst (asm) tryWrite.simps) simp
      from "1.IH" [OF a [unfolded Inl, symmetric] refl True again] obtain l2 where l2:
        "issued t' = issued t1 @ l2" "isOpen t' = isOpen t1"
        "successes EXECUTE l2 = (if succeeded r then 1 else 0)"
        "1 \<le> creates l2" "creates l2 \<le> max 1 (3 - (attempts + 1))"
        by blast
      from True have "attempts + 1 < 3" by (simp add: shouldRetry_def MAX_RETRIES_def split: if_splits)
      with l1 l2 Inl show ?thesis
        by (intro exI [of _ "l1 @ l2"]) (auto simp: successes_append creates_append)
    next
      case False
      with a Inl "1.prems" have "r = Inl error" "t' = t1"
        by (subst (asm) tryWrite.simps, simp)+
      with l1 Inl show ?thesis by auto
    qed
  qed
qed

text \<open>
  C4. For every object written by create-and-write: an attempt is CREATE followed by
  the write-object procedure. When the attempt succeeds its progress is the result.
  When it fails, the attempt counter is incremented and the whole attempt is run
  again if and only if the counter is below 3 and the code of the error is neither
  ABORTED nor NOTIFICATION_TIMEOUT; otherwise the error is the result. So between one
  and three CREATE commands are issued for an object.
\<close>

theorem createAndWriteObject_retries:
  "createAndWriteObject env data type off c t = tryWrite env data type off c 0 t
   \<and> createThenWrite env data type off c t =
       (case issue (CREATE type (length data)) (createObject env type (length data)) t of
          (Inl e, t1) \<Rightarrow> (Inl e, t1)
        | (Inr u, t1) \<Rightarrow> writeObject env data type off c t1)
   \<and> (\<forall>p t'. createThenWrite env data type off c t = (Inr p, t') \<longrightarrow>
         tryWrite env data type off c attempts t = (Inr p, t'))
   \<and> (\<forall>error t'. createThenWrite env data type off c t = (Inl error, t') \<longrightarrow>
         tryWrite env data type off c attempts t =
           (if attempts + 1 < 3 \<and> code error \<noteq> Some ABORTED
               \<and> code error \<noteq> Some NOTIFICATION_TIMEOUT
            then tryWrite env data type off c (attempts + 1) t' else (Inl error, t')))
   \<and> 1 \<le> creates (newlyIssued t (snd (createAndWriteObject env data type off c t)))
   \<and> creates (newlyIssued t (snd (createAndWriteObject env data type off c t))) \<le> 3"
proof -
  obtain r t' where run: "tryWrite env data type off c 0 t = (r, t')"
    by (cases "tryWrite env data type off c 0 t")
  from tryWrite_issued [OF run] obtain l where
    "issued t' = issued t @ l" "1 \<le> creates l" "creates l \<le> 3"
    by auto
  then have "1 \<le> creates (newlyIssued t t')" "creates (newlyIssued t t') \<le> 3"
    by (simp_all add: newlyIssued_append)
  with run show ?thesis
    by (simp add: createAndWriteObject_def createThenWrite_unfold tryWrite_success
        tryWrite_failure)
qed

text \<open>
  C4 at work: the first attempt fails at EXECUTE with OPERATION_FAILED and is run
  again with the counter at 1.
\<close>

theorem createAndWriteObject_retries_witness:
  "fst (createThenWrite (targetEnv (SelectResponse 4 0 0)) [1] DATA None None
          (newTransport (freshTarget 1))) = Inl (DfuError OPERATION_FAILED)
   \<and> tryWrite (targetEnv (SelectResponse 4 0 0)) [1] DATA None None 0 (newTransport (freshTarget 1))
       = tryWrite (targetEnv (SelectResponse 4 0 0)) [1] DATA None None 1
           (snd (createThenWrite (targetEnv (SelectResponse 4 0 0)) [1] DATA None None
                   (newTransport (freshTarget 1))))
   \<and> creates (newlyIssued (newTransport (freshTarget 1))
        (snd (createAndWriteObject (targetEnv (SelectResponse 4 0 0)) [1] DATA None None
                (newTransport (freshTarget 1))))) \<le> 3"
proof -
  let ?E = "targetEnv (SelectResponse 4 0 0)"
  let ?T = "newTransport (freshTarget 1)"
  have f: "fst (createThenWrite ?E [1] DATA None None ?T) = Inl (DfuError OPERATION_FAILED)"
    by (simp add: transport_defs run_defs)
  then have a: "createThenWrite ?E [1] DATA None None ?T
      = (Inl (DfuError OPERATION_FAILED), snd (createThenWrite ?E [1] DATA None None ?T))"
    by (metis prod.collapse)
  note retries = createAndWriteObject_retries [of ?E "[1]" DATA None None ?T 0]
  from retries have bound: "creates (newlyIssued ?T
      (snd (createAndWriteObject ?E [1] DATA None None ?T))) \<le> 3"
    by blast
  from retries a have "tryWrite ?E [1] DATA None None 0 ?T
      = (if (0 :: nat) + 1 < 3 \<and> code (DfuError OPERATION_FAILED) \<noteq> Some ABORTED
            \<and> code (DfuError OPERATION_FAILED) \<noteq> Some NOTIFICATION_TIMEOUT
         then tryWrite ?E [1] DATA None None (0 + 1) (snd (createThenWrite ?E [1] DATA None None ?T))
         else (Inl (DfuError OPERATION_FAILED), snd (createThenWrite ?E [1] DATA None None ?T)))"
    by blast
  then have step: "tryWrite ?E [1] DATA None None 0 ?T
      = tryWrite ?E [1] DATA None None 1 (snd (createThenWrite ?E [1] DATA None None ?T))"
    by simp
  from f step bound show ?thesis by (intro conjI)
qed

section \<open>A sequence of objects\<close>

text \<open>
  The \<open>reduce\<close> of \<open>_createAndWriteObjects\<close> writes the objects one after the
  other, each seeded with the progress of the one before, and stops at the first
  that fails.
\<close>

lemma andThen_resolve_left: "andThen (resolve a) f = f a"
  by (rule ext) (simp add: andThen_def resolve_def)

lemma andThen_resolve_right: "andThen p resolve = p"
  by (rule ext) (simp add: andThen_def resolve_def split: prod.splits sum.splits)

lemma andThen_assoc: "andThen (andThen p f) g = andThen p (\<lambda>a. andThen (f a) g)"
  by (rule ext) (simp add: andThen_def split: prod.splits sum.splits)

lemma foldl_andThen:
  fixes step :: "('d, progress) promise \<Rightarrow> 'x \<Rightarrow> ('d, progress) promise"
  assumes step: "\<And>prev x. step prev x = andThen prev (\<lambda>p. w x p)"
  shows "foldl step prev objs = andThen prev (\<lambda>p. foldl step (resolve p) objs)"
proof (induction objs arbitrary: prev)
  case Nil
  show ?case by (simp add: andThen_resolve_right [unfolded resolve_def [abs_def]] resolve_def [abs_def])
next
  case (Cons x xs)
  have "foldl step prev (x # xs) = foldl step (step prev x) xs" by simp
  also have "\<dots> = andThen (step prev x) (\<lambda>q. foldl step (resolve q) xs)"
    by (rule Cons.IH)
  also have "\<dots> = andThen prev (\<lambda>p. andThen (w x p) (\<lambda>q. foldl step (resolve q) xs))"
    by (simp add: step andThen_assoc)
  also have "\<dots> = andThen prev (\<lambda>p. foldl step (resolve p) (x # xs))"
  proof -
    have "foldl step (resolve p) (x # xs) = andThen (w x p) (\<lambda>q. foldl step (resolve q) xs)"
      for p
    proof -
      have "foldl step (resolve p) (x # xs) = foldl step (step (resolve p) x) xs" by simp
      also have "\<dots> = andThen (step (resolve p) x) (\<lambda>q. foldl step (resolve q) xs)"
        by (rule Cons.IH)
      also have "step (resolve p) x = w x p"
        by (simp only: step andThen_resolve_left)
      finally show ?thesis .
    qed
    then show ?thesis by simp
  qed
  finally show ?case .
qed

lemma progress_eta: "\<lparr>offset = offset p, crc32 = crc32 p\<rparr> = (p :: progress)"
  by (cases p) simp

lemma createAndWriteObjects_Nil:
  "createAndWriteObjects env [] type off c = resolve \<lparr>offset = off, crc32 = c\<rparr>"
  by (simp add: createAndWriteObjects_def)

lemma createAndWriteObjects_Cons:
  "createAndWriteObjects env (x # xs) type off c =
     andThen (createAndWriteObject env x type (Some off) (Some c))
       (\<lambda>p. createAndWriteObjects env xs type (offset p) (crc32 p))"
proof -
  define w where "w = (\<lambda>object (progress :: progress).
     createAndWriteObject env object type (Some (offset progress)) (Some (crc32 progress)))"
  define step where "step = (\<lambda>(prevPromise :: ('a, progress) promise) object.
     andThen prevPromise (\<lambda>progress. w object progress))"
  have step: "\<And>prev x. step prev x = andThen prev (\<lambda>p. w x p)"
    by (simp add: step_def)
  have caws: "\<And>objs off c. createAndWriteObjects env objs type off c
                = foldl step (resolve \<lparr>offset = off, crc32 = c\<rparr>) objs"
    by (simp add: createAndWriteObjects_def step_def w_def)
  have "createAndWriteObjects env (x # xs) type off c
          = foldl step (step (resolve \<lparr>offset = off, crc32 = c\<rparr>) x) xs"
    by (simp add: caws)
  also have "\<dots> = andThen (step (resolve \<lparr>offset = off, crc32 = c\<rparr>) x)
                      (\<lambda>q. foldl step (resolve q) xs)"
    by (rule foldl_andThen [OF step])
  also have "\<dots> = andThen (createAndWriteObject env x type (Some off) (Some c))
                      (\<lambda>q. foldl step (resolve q) xs)"
    by (simp add: step andThen_resolve_left w_def)
  also have "(\<lambda>q. foldl step (resolve q) xs)
               = (\<lambda>p. createAndWriteObjects env xs type (offset p) (crc32 p))"
    by (simp add: caws progress_eta)
  finally show ?thesis .
qed

lemma ceil_div_step:
  fixes k m :: nat
  assumes "0 < m"
  shows "(k + m + m - 1) div m = Suc ((k + m - 1) div m)"
proof -
  have "k + m + m - 1 = (k + m - 1) + m" using assms by arith
  then have "(k + m + m - 1) div m = ((k + m - 1) + m) div m" by (rule arg_cong)
  also have "\<dots> = (k + m - 1) div m + 1" using assms by (simp only: div_add_self2) 
  finally show ?thesis by arith
qed

lemma ceil_div_small:
  fixes n m :: nat
  assumes "1 \<le> n" "n < m"
  shows "(n + m - 1) div m = 1"
  using assms by (intro div_nat_eqI) arith+

lemma length_splitArray:
  "0 < chunkSize \<Longrightarrow>
     length (splitArray data chunkSize) = (length data + chunkSize - 1) div chunkSize"
proof (induction data chunkSize rule: splitArray.induct)
  case (1 data chunkSize)
  show ?case
  proof (cases "data = []")
    case True
    have "splitArray data chunkSize = []"
      by (subst splitArray.simps) (simp add: True)
    with True "1.prems" show ?thesis by simp
  next
    case False
    have unfold: "splitArray data chunkSize
        = take chunkSize data # splitArray (drop chunkSize data) chunkSize"
      using False "1.prems" by (subst splitArray.simps) simp
    have ih: "length (splitArray (drop chunkSize data) chunkSize)
        = (length (drop chunkSize data) + chunkSize - 1) div chunkSize"
      using False "1.prems" by (intro "1.IH") simp_all
    show ?thesis
    proof (cases "chunkSize \<le> length data")
      case True
      define k where "k = length data - chunkSize"
      then have len: "length data = k + chunkSize" using True by arith
      have "length (splitArray data chunkSize) = Suc ((k + chunkSize - 1) div chunkSize)"
        unfolding unfold using ih by (simp add: k_def)
      also have "\<dots> = (k + chunkSize + chunkSize - 1) div chunkSize"
        using ceil_div_step [OF "1.prems", of k] by (rule sym)
      finally show ?thesis by (simp only: len)
    next
      case False
      with \<open>data \<noteq> []\<close> have b: "1 \<le> length data" "length data < chunkSize"
        by (simp_all add: Suc_leI)
      have "length (splitArray data chunkSize) = 1"
        unfolding unfold using ih b "1.prems" by simp
      with ceil_div_small [OF b] show ?thesis by (simp only:)
    qed
  qed
qed

lemma getFirmwareState_fresh:
  "getFirmwareState fw (SelectResponse maxSize 0 c)
     = \<lparr>offset = 0, crc32 = c, objects = splitArray fw maxSize, partialObject = []\<rparr>"
  using js_slice_from_nat [of fw 0]
  by (simp add: getFirmwareState_def partialObject_slice Let_def)

lemma createAndWriteObjects_issued:
  "createAndWriteObjects env objs type off c t = (Inr p, t') \<Longrightarrow>
     \<exists>l. issued t' = issued t @ l \<and> successes EXECUTE l = length objs"
proof (induction objs arbitrary: off c t)
  case Nil
  then show ?case
    by (simp add: createAndWriteObjects_Nil resolve_def successes_def)
next
  case (Cons x xs)
  from Cons.prems show ?case
    unfolding createAndWriteObjects_Cons
  proof (cases rule: andThen_cases)
    case (fails e)
    then show ?thesis by simp
  next
    case (passes q t1)
    from tryWrite_issued [OF passes(1) [unfolded createAndWriteObject_def]]
    obtain l1 where l1: "issued t1 = issued t @ l1" "successes EXECUTE l1 = 1"
      by auto
    from Cons.IH [OF passes(2)] obtain l2 where
      "issued t' = issued t1 @ l2" "successes EXECUTE l2 = length xs"
      by blast
    with l1 show ?thesis
      by (intro exI [of _ "l1 @ l2"]) (simp add: successes_append)
  qed
qed


lemma open_transport_issued:
  assumes "open_transport env t = (r, t')"
  shows "\<exists>l. issued t' = issued t @ l \<and> isOpen t' = isOpen t \<and> successes EXECUTE l = 0
             \<and> creates l = 0 \<and> set (commands l) \<subseteq> {StartNotifications}"
proof (cases "isOpen t")
  case True
  with assms show ?thesis
    by (simp add: open_transport_def resolve_def successes_def creates_def commands_def)
next
  case False
  with assms have "issue StartNotifications
             (\<lambda>d. case startCharacteristicsNotifications env d of
                     (Inl error, d') \<Rightarrow> (Inl (DfuError NOTIFICATION_START_ERROR), d')
                   | (Inr u, d') \<Rightarrow> (Inr (), d')) t = (r, t')"
    by (simp add: open_transport_def)
  then show ?thesis
    by (cases rule: issue_cases)
       (simp add: successes_def creates_def commands_def isCreate_def)
qed

lemma emit_issued:
  "issued (emit stage off t) = issued t @ [(ProgressUpdate stage off, True)]"
  "isOpen (emit stage off t) = isOpen t"
  "device (emit stage off t) = device t"
  by (simp_all add: emit_def)

section \<open>Sending the firmware to a fresh target\<close>

lemma issued_successes:
  "(c, False) \<notin> set l \<Longrightarrow> length (filter (\<lambda>x. x = c) (commands l)) = successes c l"
  by (induction l) (auto simp: commands_def successes_def)

text \<open>
  C6, as the code has it. For a firmware of length \<open>L\<close> and a target that answers
  SELECT with offset 0 and a maximum object size \<open>M > 0\<close>: when \<open>sendFirmware\<close>
  succeeds, exactly \<open>\<lceil>L/M\<rceil>\<close> EXECUTE commands have succeeded, one per object, and
  that is the number of EXECUTE commands issued when none of them failed.
\<close>

theorem sendFirmware_fresh_executes:
  assumes "0 < maxSize"
      and "selectObject env DATA
             (device (snd (open_transport env (emitInitializeEvent DATA t))))
           = (Inr (SelectResponse maxSize 0 c), d1)"
      and "sendFirmware env fw t = (Inr p, t')"
  shows "successes EXECUTE (newlyIssued t t') = (length fw + maxSize - 1) div maxSize
         \<and> ((EXECUTE, False) \<notin> set (newlyIssued t t') \<longrightarrow>
              length (filter (\<lambda>x. x = EXECUTE) (commands (newlyIssued t t')))
                = (length fw + maxSize - 1) div maxSize)"
proof -
  from assms(3) obtain u t0 where
    opened: "open_transport env (emitInitializeEvent DATA t) = (Inr u, t0)"
    and rest: "andThen (issue (SELECT DATA) (selectObject env DATA))
       (\<lambda>response.
          let state = getFirmwareState fw response
          in if partialObject state \<noteq> []
             then (\<lambda>t'. andThen (writeObject env (partialObject state) DATA
                                   (Some (offset state)) (Some (crc32 state)))
                           (\<lambda>progress. createAndWriteObjects env (objects state) DATA
                                          (offset progress) (crc32 progress))
                           (emitResumeEvent (offset state) DATA t'))
             else createAndWriteObjects env (objects state) DATA (offset state) (crc32 state))
       t0 = (Inr p, t')"
    unfolding sendFirmware_def by (cases rule: andThen_cases) auto
  from rest obtain response t1 where
    sel: "issue (SELECT DATA) (selectObject env DATA) t0 = (Inr response, t1)"
    and objs: "(let state = getFirmwareState fw response
          in if partialObject state \<noteq> []
             then (\<lambda>t'. andThen (writeObject env (partialObject state) DATA
                                   (Some (offset state)) (Some (crc32 state)))
                           (\<lambda>progress. createAndWriteObjects env (objects state) DATA
                                          (offset progress) (crc32 progress))
                           (emitResumeEvent (offset state) DATA t'))
             else createAndWriteObjects env (objects state) DATA (offset state) (crc32 state))
        t1 = (Inr p, t')"
    by (cases rule: andThen_cases) auto
  from sel assms(2) opened have response: "response = SelectResponse maxSize 0 c"
    and t1: "issued t1 = issued t0 @ [(SELECT DATA, True)]"
    by (cases rule: issue_cases, simp)+
  from objs have run: "createAndWriteObjects env (splitArray fw maxSize) DATA 0 c t1 = (Inr p, t')"
    by (simp add: response getFirmwareState_fresh)
  from createAndWriteObjects_issued [OF run] obtain l where
    l: "issued t' = issued t1 @ l" "successes EXECUTE l = length (splitArray fw maxSize)"
    by blast
  from open_transport_issued [OF opened] obtain l0 where
    l0: "issued t0 = issued (emitInitializeEvent DATA t) @ l0" "successes EXECUTE l0 = 0"
    by blast
  have "issued t' = issued t
          @ ([(ProgressUpdate (''Initializing '' @ getObjectTypeString DATA) 0, True)] @ l0
             @ [(SELECT DATA, True)] @ l)"
    using l l0 t1 by (simp add: emitInitializeEvent_def emit_issued)
  then have new: "newlyIssued t t'
      = [(ProgressUpdate (''Initializing '' @ getObjectTypeString DATA) 0, True)] @ l0
         @ [(SELECT DATA, True)] @ l"
    by (rule newlyIssued_append)
  have count: "successes EXECUTE (newlyIssued t t') = (length fw + maxSize - 1) div maxSize"
    unfolding new successes_append using l(2) l0(2)
    by (simp add: successes_def length_splitArray [OF assms(1)])
  with issued_successes [of EXECUTE "newlyIssued t t'"] show ?thesis by simp
qed

lemma split_one: "splitArray [1 :: byte] (Suc 0) = [[1]]"
  by (simp add: splitArray.simps)

text \<open>
  C6 as stated fails: one byte of firmware, objects of one byte, and a target that
  fails the first EXECUTE with OPERATION_FAILED. The attempt is retried and
  \<open>sendFirmware\<close> succeeds, with two EXECUTE commands issued for \<open>\<lceil>1/1\<rceil> = 1\<close> object.
\<close>

theorem sendFirmware_retried_execute:
  "succeeded (fst (sendFirmware (targetEnv (SelectResponse 1 0 0)) [1] (newTransport (freshTarget 1))))
   \<and> length (filter (\<lambda>x. x = EXECUTE)
        (commands (issued (snd (sendFirmware (targetEnv (SelectResponse 1 0 0)) [1]
                                  (newTransport (freshTarget 1))))))) = 2
   \<and> (length [1 :: byte] + 1 - 1) div 1 = 1"
  by (simp add: transport_defs run_defs tryWrite.simps getFirmwareState_fresh split_one commands_def)

text \<open>C6 at work: 3 bytes in objects of 2 are executed as 2 objects.\<close>

lemma split_three: "splitArray [1, 2, 3 :: byte] 2 = [[1, 2], [3]]"
  by (simp add: splitArray.simps)

theorem sendFirmware_fresh_executes_witness:
  "fst (sendFirmware (targetEnv (SelectResponse 2 0 0)) [1, 2, 3] (newTransport (freshTarget 0)))
     = Inr \<lparr>offset = 3, crc32 = crc_crc32_from (crc_crc32_from 0 [1, 2]) [3]\<rparr>
   \<and> successes EXECUTE (newlyIssued (newTransport (freshTarget 0))
        (snd (sendFirmware (targetEnv (SelectResponse 2 0 0)) [1, 2, 3] (newTransport (freshTarget 0)))))
     = 2"
proof -
  let ?E = "targetEnv (SelectResponse 2 0 0)"
  let ?T = "newTransport (freshTarget 0)"
  have m: "0 < (2 :: nat)" by simp
  have s: "selectObject ?E DATA (device (snd (open_transport ?E (emitInitializeEvent DATA ?T))))
             = (Inr (SelectResponse 2 0 0), freshTarget 0)"
    by (simp add: transport_defs run_defs)
  have f: "fst (sendFirmware ?E [1, 2, 3] ?T)
     = Inr \<lparr>offset = 3, crc32 = crc_crc32_from (crc_crc32_from 0 [1, 2]) [3]\<rparr>"
    by (simp add: transport_defs run_defs tryWrite.simps getFirmwareState_fresh split_three)
  then have r: "sendFirmware ?E [1, 2, 3] ?T
     = (Inr \<lparr>offset = 3, crc32 = crc_crc32_from (crc_crc32_from 0 [1, 2]) [3]\<rparr>,
        snd (sendFirmware ?E [1, 2, 3] ?T))"
    by (metis prod.collapse)
  from sendFirmware_fresh_executes [OF m s r] f show ?thesis by simp
qed

section \<open>Sending the init packet\<close>

lemma writeObject_commands:
  assumes "writeObject env data type off c t = (r, t')"
  shows "\<exists>b l. issued t' = issued t @ (WriteObject data type off c, b) # l
               \<and> set (commands l) \<subseteq> {CALCULATE_CRC, EXECUTE} \<and> (succeeded r \<longrightarrow> b)"
  using assms
proof (cases rule: writeObject_cases)
  case (writerFails e d1)
  then show ?thesis by (auto simp: commands_def)
next
  case (calcFails p d1 e d2)
  then show ?thesis by (auto simp: commands_def)
next
  case (mismatch p d1 response d2)
  then show ?thesis by (auto simp: commands_def)
next
  case (executed p d1 response d2 x d3)
  then show ?thesis by (auto simp: commands_def)
qed

lemma createThenWrite_commands:
  assumes "createThenWrite env data type off c t = (r, t')"
  shows "\<exists>b l. issued t' = issued t @ (CREATE type (length data), b) # l
               \<and> set (commands l) \<subseteq> {WriteObject data type off c, CALCULATE_CRC, EXECUTE}
               \<and> (succeeded r \<longrightarrow> (WriteObject data type off c, True) \<in> set l)"
  using assms unfolding createThenWrite_def
proof (cases rule: andThen_cases)
  case (fails e)
  from fails(1) show ?thesis
    by (cases rule: issue_cases) (auto simp: fails(2) commands_def)
next
  case (passes a t1)
  from passes(1) have t1: "issued t1 = issued t @ [(CREATE type (length data), True)]"
    by (cases rule: issue_cases) simp
  from writeObject_commands [OF passes(2)] obtain b l where
    "issued t' = issued t1 @ (WriteObject data type off c, b) # l"
    "set (commands l) \<subseteq> {CALCULATE_CRC, EXECUTE}" "succeeded r \<longrightarrow> b"
    by blast
  with t1 show ?thesis
    by (intro exI [of _ True] exI [of _ "(WriteObject data type off c, b) # l"])
       (auto simp: commands_def)
qed

lemma tryWrite_commands:
  "tryWrite env data type off c attempts t = (r, t') \<Longrightarrow>
     \<exists>b l. issued t' = issued t @ (CREATE type (length data), b) # l
          \<and> set (commands l)
               \<subseteq> {CREATE type (length data), WriteObject data type off c, CALCULATE_CRC, EXECUTE}
          \<and> (succeeded r \<longrightarrow> (WriteObject data type off c, True) \<in> set l)"
proof (induction env data type off c attempts t arbitrary: r t' rule: tryWrite.induct)
  case (1 env data type off c attempts t)
  obtain x t1 where a: "createThenWrite env data type off c t = (x, t1)"
    by (cases "createThenWrite env data type off c t")
  from createThenWrite_commands [OF a] obtain b1 l1 where l1:
    "issued t1 = issued t @ (CREATE type (length data), b1) # l1"
    "set (commands l1) \<subseteq> {WriteObject data type off c, CALCULATE_CRC, EXECUTE}"
    "succeeded x \<longrightarrow> (WriteObject data type off c, True) \<in> set l1"
    by blast
  show ?case
  proof (cases x)
    case (Inr p)
    with a "1.prems" have "r = Inr p" "t' = t1"
      by (simp_all add: tryWrite_success)
    with l1 Inr show ?thesis by auto
  next
    case (Inl error)
    show ?thesis
    proof (cases "shouldRetry (attempts + 1) error")
      case True
      with a Inl "1.prems" have again: "tryWrite env data type off c (attempts + 1) t1 = (r, t')"
        by (subst (asm) tryWrite.simps) simp
      from "1.IH" [OF a [unfolded Inl, symmetric] refl True again] obtain b2 l2 where l2:
        "issued t' = issued t1 @ (CREATE type (length data), b2) # l2"
        "set (commands l2)
           \<subseteq> {CREATE type (length data), WriteObject data type off c, CALCULATE_CRC, EXECUTE}"
        "succeeded r \<longrightarrow> (WriteObject data type off c, True) \<in> set l2"
        by blast
      with l1 show ?thesis
        by (intro exI [of _ b1] exI [of _ "l1 @ (CREATE type (length data), b2) # l2"])
           (auto simp: commands_def)
    next
      case False
      with a Inl "1.prems" have "r = Inl error" "t' = t1"
        by (subst (asm) tryWrite.simps, simp)+
      with l1 Inl show ?thesis by auto
    qed
  qed
qed

text \<open>
  C2, as the code has it. After the transport has opened and SELECT has answered
  \<open>(maxSize, off, c)\<close>: an init packet longer than \<open>maxSize\<close> fails with
  INIT_PACKET_TOO_LARGE and nothing more is issued. Otherwise, if
  \<open>0 < off \<le> length pkt\<close> and \<open>c\<close> is the CRC-32 of \<open>pkt[0..off]\<close>, the resume event is
  emitted and \<open>pkt[off..]\<close> is written with the seed \<open>(off, c)\<close>, followed only by
  CALCULATE_CRC and EXECUTE, with no CREATE at all; if not, create-and-write runs on
  the whole packet with both seed arguments left undefined: CREATE for the Command
  type and the length of the packet comes first, every write is of the whole packet,
  and a successful run has written it.
\<close>

theorem sendInitPacket_resume_or_create:
  assumes "open_transport env (emitInitializeEvent COMMAND t) = (Inr u, t0)"
      and "issue (SELECT COMMAND) (selectObject env COMMAND) t0
             = (Inr (SelectResponse maxSize off c), t1)"
      and "sendInitPacket env pkt t = (result, t')"
  shows "(maxSize < length pkt \<longrightarrow>
            result = Inl (DfuError INIT_PACKET_TOO_LARGE) \<and> t' = t1
            \<and> creates (newlyIssued t t') = 0)
       \<and> (length pkt \<le> maxSize \<and> 0 < off \<and> off \<le> length pkt \<and> c = crc_crc32 (take off pkt) \<longrightarrow>
            (result, t') = writeObject env (drop off pkt) COMMAND (Some (int off)) (Some c)
                             (emitResumeEvent (int off) COMMAND t1)
            \<and> creates (newlyIssued t t') = 0
            \<and> take 2 (commands (newlyIssued t1 t'))
                = [ProgressUpdate ''Resuming init packet transfer'' (int off),
                   WriteObject (drop off pkt) COMMAND (Some (int off)) (Some c)]
            \<and> set (drop 2 (commands (newlyIssued t1 t'))) \<subseteq> {CALCULATE_CRC, EXECUTE})
       \<and> (length pkt \<le> maxSize
            \<and> \<not> (0 < off \<and> off \<le> length pkt \<and> c = crc_crc32 (take off pkt)) \<longrightarrow>
            (result, t') = createAndWriteObject env pkt COMMAND None None t1
            \<and> take 1 (commands (newlyIssued t1 t')) = [CREATE COMMAND (length pkt)]
            \<and> set (commands (newlyIssued t1 t'))
                \<subseteq> {CREATE COMMAND (length pkt), WriteObject pkt COMMAND None None,
                    CALCULATE_CRC, EXECUTE}
            \<and> (succeeded result \<longrightarrow>
                 (WriteObject pkt COMMAND None None, True) \<in> set (newlyIssued t1 t')))"
proof -
  from open_transport_issued [OF assms(1)] obtain l0 where l0:
    "issued t0 = issued (emitInitializeEvent COMMAND t) @ l0" "creates l0 = 0"
    by blast
  from assms(2) have t1: "issued t1 = issued t0 @ [(SELECT COMMAND, True)]"
    by (cases rule: issue_cases) simp
  have pre: "issued t1 = issued t
      @ ([(ProgressUpdate (''Initializing '' @ getObjectTypeString COMMAND) 0, True)] @ l0
         @ [(SELECT COMMAND, True)])"
    using l0 t1 by (simp add: emitInitializeEvent_def emit_issued)
  have pre_creates: "creates ([(ProgressUpdate (''Initializing '' @ getObjectTypeString COMMAND) 0, True)]
       @ l0 @ [(SELECT COMMAND, True)]) = 0"
    using l0(2) by (simp add: creates_def commands_def isCreate_def)
  have unfold: "sendInitPacket env pkt t =
     (if length pkt > maxSize then (Inl (DfuError INIT_PACKET_TOO_LARGE), t1)
      else if canResumePartiallyWrittenObject pkt off c
      then writeObject env (js_slice_from pkt (int off)) COMMAND (Some (int off)) (Some c)
             (emitResumeEvent (int off) COMMAND t1)
      else createAndWriteObject env pkt COMMAND None None t1)"
    by (simp add: sendInitPacket_def andThen_def assms(1) assms(2) reject_def)
  show ?thesis
  proof (intro conjI impI)
    assume big: "maxSize < length pkt"
    with unfold assms(3) show "result = Inl (DfuError INIT_PACKET_TOO_LARGE)" and "t' = t1"
      by simp_all
    then show "creates (newlyIssued t t') = 0"
      using pre pre_creates by (simp only: newlyIssued_append [OF pre])
  next
    assume "length pkt \<le> maxSize \<and> 0 < off \<and> off \<le> length pkt \<and> c = crc_crc32 (take off pkt)"
    then have fit: "\<not> length pkt > maxSize" and can: "canResumePartiallyWrittenObject pkt off c"
      by (simp_all add: canResume_iff)
    from unfold assms(3) fit can
    have w: "writeObject env (drop off pkt) COMMAND (Some (int off)) (Some c)
               (emitResumeEvent (int off) COMMAND t1) = (result, t')"
      by (simp add: js_slice_from_nat)
    then show "(result, t') = writeObject env (drop off pkt) COMMAND (Some (int off)) (Some c)
                             (emitResumeEvent (int off) COMMAND t1)"
      by simp
    from writeObject_commands [OF w] obtain b l where l:
      "issued t' = issued (emitResumeEvent (int off) COMMAND t1)
                     @ (WriteObject (drop off pkt) COMMAND (Some (int off)) (Some c), b) # l"
      "set (commands l) \<subseteq> {CALCULATE_CRC, EXECUTE}"
      by blast
    then have after: "issued t' = issued t1
        @ ((ProgressUpdate ''Resuming init packet transfer'' (int off), True)
           # (WriteObject (drop off pkt) COMMAND (Some (int off)) (Some c), b) # l)"
      by (simp add: emitResumeEvent_def emit_issued getObjectTypeString_def)
    show "take 2 (commands (newlyIssued t1 t'))
                = [ProgressUpdate ''Resuming init packet transfer'' (int off),
                   WriteObject (drop off pkt) COMMAND (Some (int off)) (Some c)]"
      by (simp add: newlyIssued_append [OF after] commands_def)
    show "set (drop 2 (commands (newlyIssued t1 t'))) \<subseteq> {CALCULATE_CRC, EXECUTE}"
      using l(2) by (simp add: newlyIssued_append [OF after] commands_def)
    have "issued t' = issued t
      @ (([(ProgressUpdate (''Initializing '' @ getObjectTypeString COMMAND) 0, True)] @ l0
         @ [(SELECT COMMAND, True)])
         @ ((ProgressUpdate ''Resuming init packet transfer'' (int off), True)
           # (WriteObject (drop off pkt) COMMAND (Some (int off)) (Some c), b) # l))"
      using after pre by simp
    from newlyIssued_append [OF this] show "creates (newlyIssued t t') = 0"
      using pre_creates l(2)
      by (auto simp: creates_append) (auto simp: creates_def commands_def isCreate_def
            filter_empty_conv)
  next
    assume a: "length pkt \<le> maxSize
            \<and> \<not> (0 < off \<and> off \<le> length pkt \<and> c = crc_crc32 (take off pkt))"
    then have fit: "\<not> length pkt > maxSize" and can: "\<not> canResumePartiallyWrittenObject pkt off c"
      by (simp_all add: canResume_iff)
    from unfold assms(3) fit can
    have w: "tryWrite env pkt COMMAND None None 0 t1 = (result, t')"
      by (simp add: createAndWriteObject_def)
    then show "(result, t') = createAndWriteObject env pkt COMMAND None None t1"
      by (simp add: createAndWriteObject_def)
    from tryWrite_commands [OF w] obtain b l where l:
      "issued t' = issued t1 @ (CREATE COMMAND (length pkt), b) # l"
      "set (commands l)
         \<subseteq> {CREATE COMMAND (length pkt), WriteObject pkt COMMAND None None, CALCULATE_CRC, EXECUTE}"
      "succeeded result \<longrightarrow> (WriteObject pkt COMMAND None None, True) \<in> set l"
      by blast
    show "take 1 (commands (newlyIssued t1 t')) = [CREATE COMMAND (length pkt)]"
      by (simp add: newlyIssued_append [OF l(1)] commands_def)
    show "set (commands (newlyIssued t1 t'))
                \<subseteq> {CREATE COMMAND (length pkt), WriteObject pkt COMMAND None None,
                    CALCULATE_CRC, EXECUTE}"
      using l(2) by (auto simp: newlyIssued_append [OF l(1)] commands_def)
    assume "succeeded result"
    with l(3) show "(WriteObject pkt COMMAND None None, True) \<in> set (newlyIssued t1 t')"
      by (simp add: newlyIssued_append [OF l(1)])
  qed
qed

text \<open>
  C2 as stated fails: an init packet of 2 bytes and a target whose SELECT answers
  \<open>(1, 0, 0)\<close>. The offset is 0, so the packet cannot be resumed, and yet no CREATE
  is issued: the size check rejects the packet first.
\<close>

theorem sendInitPacket_too_large:
  "\<not> (0 < (0 :: nat) \<and> (0 :: nat) \<le> length [1, 2 :: byte] \<and> (0 :: crc) = crc_crc32 (take 0 [1, 2]))
   \<and> fst (sendInitPacket (targetEnv (SelectResponse 1 0 0)) [1, 2] (newTransport (freshTarget 0)))
       = Inl (DfuError INIT_PACKET_TOO_LARGE)
   \<and> commands (issued (snd (sendInitPacket (targetEnv (SelectResponse 1 0 0)) [1, 2]
                               (newTransport (freshTarget 0)))))
       = [ProgressUpdate ''Initializing init packet'' 0, StartNotifications, SELECT COMMAND]"
  by (simp add: transport_defs run_defs commands_def)

text \<open>C2 at work: a fresh target and a packet of 3 bytes, created and written.\<close>

theorem sendInitPacket_resume_or_create_witness:
  "fst (sendInitPacket (targetEnv (SelectResponse 4 0 0)) [1, 2, 3] (newTransport (freshTarget 0)))
     = Inr \<lparr>offset = 3, crc32 = crc_crc32_from 0 [1, 2, 3]\<rparr>
   \<and> take 1 (commands (newlyIssued
                (snd (issue (SELECT COMMAND) (selectObject (targetEnv (SelectResponse 4 0 0)) COMMAND)
                   (snd (open_transport (targetEnv (SelectResponse 4 0 0))
                           (emitInitializeEvent COMMAND (newTransport (freshTarget 0)))))))
                (snd (sendInitPacket (targetEnv (SelectResponse 4 0 0)) [1, 2, 3]
                        (newTransport (freshTarget 0))))))
       = [CREATE COMMAND 3]"
proof -
  let ?E = "targetEnv (SelectResponse 4 0 0)"
  let ?T = "newTransport (freshTarget 0)"
  let ?t0 = "snd (open_transport ?E (emitInitializeEvent COMMAND ?T))"
  let ?t1 = "snd (issue (SELECT COMMAND) (selectObject ?E COMMAND) ?t0)"
  have o: "open_transport ?E (emitInitializeEvent COMMAND ?T) = (Inr (), ?t0)"
    by (simp add: transport_defs run_defs)
  have s: "issue (SELECT COMMAND) (selectObject ?E COMMAND) ?t0 = (Inr (SelectResponse 4 0 0), ?t1)"
    by (simp add: transport_defs run_defs)
  have f: "fst (sendInitPacket ?E [1, 2, 3] ?T) = Inr \<lparr>offset = 3, crc32 = crc_crc32_from 0 [1, 2, 3]\<rparr>"
    by (simp add: transport_defs run_defs tryWrite.simps canResume_iff)
  then have r: "sendInitPacket ?E [1, 2, 3] ?T
      = (Inr \<lparr>offset = 3, crc32 = crc_crc32_from 0 [1, 2, 3]\<rparr>, snd (sendInitPacket ?E [1, 2, 3] ?T))"
    by (metis prod.collapse)
  from sendInitPacket_resume_or_create [OF o s r] f show ?thesis by simp
qed

section \<open>The transport is never open\<close>

text \<open>
  No operation of the transport changes \<open>_isOpen\<close>, whatever the collaborators
  answer; and on a transport that is not open, \<open>close\<close> returns at once.
\<close>

lemma open_transport_isOpen: "isOpen (snd (open_transport env t)) = isOpen t"
  by (simp add: open_transport_def resolve_def issue_def split: prod.splits)

lemma setPrn_isOpen: "isOpen (snd (setPrn env prn t)) = isOpen t"
  using open_transport_isOpen [of env t]
  by (auto simp: setPrn_def andThen_def issue_def split: prod.splits sum.splits)

lemma andThen_isOpen:
  assumes "\<And>t. isOpen (snd (p t)) = isOpen t"
      and "\<And>a t. isOpen (snd (f a t)) = isOpen t"
  shows "isOpen (snd (andThen p f t)) = isOpen t"
proof (cases "p t")
  case (Pair r t1)
  with assms(1) [of t] have "isOpen t1 = isOpen t" by simp
  with Pair assms(2) show ?thesis
    by (cases r) (simp_all add: andThen_def)
qed

lemma issue_isOpen: "isOpen (snd (issue c f t)) = isOpen t"
  by (simp add: issue_def split: prod.splits)

lemma resolve_isOpen: "isOpen (snd (resolve a t)) = isOpen t"
  by (simp add: resolve_def)

lemma reject_isOpen: "isOpen (snd (reject e t)) = isOpen t"
  by (simp add: reject_def)

lemma writeObject_isOpen: "isOpen (snd (writeObject env data type off c t)) = isOpen t"
  using writeObject_issued [of env data type off c t "fst (writeObject env data type off c t)"
      "snd (writeObject env data type off c t)"]
  by auto

lemma tryWrite_isOpen: "isOpen (snd (tryWrite env data type off c attempts t)) = isOpen t"
  using tryWrite_issued [of env data type off c attempts t
      "fst (tryWrite env data type off c attempts t)"
      "snd (tryWrite env data type off c attempts t)"]
  by auto

lemma createAndWriteObjects_isOpen:
  "isOpen (snd (createAndWriteObjects env objs type off c t)) = isOpen t"
proof (induction objs arbitrary: off c t)
  case Nil
  show ?case by (simp add: createAndWriteObjects_Nil resolve_def)
next
  case (Cons x xs)
  show ?case
    unfolding createAndWriteObjects_Cons
    by (rule andThen_isOpen) (simp_all add: createAndWriteObject_def tryWrite_isOpen Cons.IH)
qed

lemma sendInitPacket_isOpen: "isOpen (snd (sendInitPacket env pkt t)) = isOpen t"
proof -
  have "isOpen (snd (sendInitPacket env pkt t)) = isOpen (emitInitializeEvent COMMAND t)"
    unfolding sendInitPacket_def
    by (intro andThen_isOpen open_transport_isOpen issue_isOpen)
       (auto simp: reject_isOpen writeObject_isOpen createAndWriteObject_def tryWrite_isOpen
          emitResumeEvent_def emit_issued split: selectResponse.splits)
  then show ?thesis by (simp add: emitInitializeEvent_def emit_issued)
qed

lemma resume_isOpen:
  "isOpen (snd (andThen (writeObject env part DATA off c)
                  (\<lambda>progress. createAndWriteObjects env objs DATA (offset progress) (crc32 progress))
                  (emitResumeEvent o' DATA t))) = isOpen t"
proof -
  have "isOpen (snd (andThen (writeObject env part DATA off c)
                  (\<lambda>progress. createAndWriteObjects env objs DATA (offset progress) (crc32 progress))
                  (emitResumeEvent o' DATA t))) = isOpen (emitResumeEvent o' DATA t)"
    by (rule andThen_isOpen) (simp_all add: writeObject_isOpen createAndWriteObjects_isOpen)
  then show ?thesis by (simp add: emitResumeEvent_def emit_issued)
qed

lemma sendFirmware_isOpen: "isOpen (snd (sendFirmware env fw t)) = isOpen t"
proof -
  have "isOpen (snd (sendFirmware env fw t)) = isOpen (emitInitializeEvent DATA t)"
    unfolding sendFirmware_def
    by (intro andThen_isOpen open_transport_isOpen issue_isOpen)
       (simp_all add: Let_def createAndWriteObjects_isOpen resume_isOpen)
  then show ?thesis by (simp add: emitInitializeEvent_def emit_issued)
qed

lemma close_never_issues:
  "isOpen t = False \<Longrightarrow> close env t = (Inr (), t)"
  by (simp add: close_def resolve_def)

text \<open>
  C3. A new transport is closed, and \<open>close\<close> on it succeeds without a command. But
  no operation opens it: after a successful \<open>setPrn\<close> the field \<open>_isOpen\<close> is still
  false, a second \<open>setPrn\<close> enables the notifications again, and \<open>close\<close> succeeds
  without stopping them.
\<close>

theorem transport_never_open:
  "isOpen (newTransport (freshTarget 0)) = False
   \<and> fst (setPrn (targetEnv (SelectResponse 4 0 0)) 0 (newTransport (freshTarget 0))) = Inr ()
   \<and> isOpen (snd (setPrn (targetEnv (SelectResponse 4 0 0)) 0 (newTransport (freshTarget 0)))) = False
   \<and> commands (issued (snd (setPrn (targetEnv (SelectResponse 4 0 0)) 0
       (snd (setPrn (targetEnv (SelectResponse 4 0 0)) 0 (newTransport (freshTarget 0)))))))
      = [StartNotifications, SET_PRN 0, WriterSetPrn 0, StartNotifications, SET_PRN 0, WriterSetPrn 0]
   \<and> fst (close (targetEnv (SelectResponse 4 0 0))
        (snd (setPrn (targetEnv (SelectResponse 4 0 0)) 0 (newTransport (freshTarget 0))))) = Inr ()
   \<and> commands (issued (snd (close (targetEnv (SelectResponse 4 0 0))
        (snd (setPrn (targetEnv (SelectResponse 4 0 0)) 0 (newTransport (freshTarget 0)))))))
      = [StartNotifications, SET_PRN 0, WriterSetPrn 0]"
  by (simp add: transport_defs run_defs commands_def)

section \<open>Reading the update package\<close>

lemma createUpdates_object:
  "createUpdates (Some (JObj members)) updates types =
     Inr (updates @ map (\<lambda>t. makeUpdate (the (map_of members t)))
                      (filter (\<lambda>t. truthy (map_of members t)) types))"
  by (induction types arbitrary: updates) simp_all

lemma fetchUpdates_manifest:
  assumes "loadZip lib path = Inr archive"
      and "getManifestAsync lib path = Inr manifest"
  shows "fetchUpdates lib path =
           (case createUpdates manifest [] updateTypes of
              Inl err \<Rightarrow> Unsettled err | Inr updates \<Rightarrow> Resolved updates)"
  using assms
  by (cases "getManifest lib (StringValue path)")
     (simp_all add: fetchUpdates_def getManifestAsync_def)

lemma fetchUpdates_rejected:
  assumes "loadZip lib path = Inr archive"
      and "getManifest lib (StringValue path) = CallbackError err"
  shows "fetchUpdates lib path = Rejected err"
  using assms by (simp add: fetchUpdates_def getManifestAsync_def)

lemma getManifest_loaded:
  assumes "loadZip lib path = Inr archive" and "path \<noteq> []"
  shows "getManifest lib (StringValue path) =
     (case archive ''manifest.json'' of
        None \<Rightarrow> CallbackError TypeError
      | Some (Inl err) \<Rightarrow> CallbackError err
      | Some (Inr data) \<Rightarrow>
          (case jsonParse lib data of
             Inl err \<Rightarrow> CallbackError err
           | Inr root \<Rightarrow>
               (case getProperty (Some root) ''manifest'' of
                  Inl err \<Rightarrow> CallbackError err
                | Inr manifest \<Rightarrow> CallbackManifest manifest)))"
  using assms by (simp add: getManifest_def)

text \<open>
  C8, as the code has it. Once the file is loaded as an archive: without a
  \<open>manifest.json\<close> the reader fails with the \<open>TypeError\<close> of the runtime, and with
  a manifest that does not parse it fails with the error of the parser; no error
  carries the code PACKAGE_INVALID. With a manifest object it resolves, and a member
  whose name is not one of the four update types changes nothing.
\<close>

theorem fetchUpdates_failures:
  assumes "loadZip lib path = Inr archive" and "path \<noteq> []"
  shows "(archive ''manifest.json'' = None \<longrightarrow>
            getManifest lib (StringValue path) = CallbackError TypeError
            \<and> fetchUpdates lib path = Rejected TypeError)
       \<and> (\<forall>data err. archive ''manifest.json'' = Some (Inr data) \<and> jsonParse lib data = Inl err \<longrightarrow>
            getManifest lib (StringValue path) = CallbackError err
            \<and> fetchUpdates lib path = Rejected err)
       \<and> (\<forall>data root members.
            archive ''manifest.json'' = Some (Inr data) \<and> jsonParse lib data = Inr root
            \<and> getProperty (Some root) ''manifest'' = Inr (Some (JObj members)) \<longrightarrow>
            (\<exists>updates. createUpdates (Some (JObj members)) [] updateTypes = Inr updates
                       \<and> fetchUpdates lib path = Resolved updates))
       \<and> (\<forall>name entry members. name \<notin> set updateTypes \<longrightarrow>
            createUpdates (Some (JObj ((name, entry) # members))) [] updateTypes
              = createUpdates (Some (JObj members)) [] updateTypes)"
proof (intro conjI allI impI)
  assume "archive ''manifest.json'' = None"
  then show m: "getManifest lib (StringValue path) = CallbackError TypeError"
    by (simp add: getManifest_loaded [OF assms])
  then show "fetchUpdates lib path = Rejected TypeError"
    by (rule fetchUpdates_rejected [OF assms(1)])
next
  fix data err
  assume "archive ''manifest.json'' = Some (Inr data) \<and> jsonParse lib data = Inl err"
  then show m: "getManifest lib (StringValue path) = CallbackError err"
    by (simp add: getManifest_loaded [OF assms])
  then show "fetchUpdates lib path = Rejected err"
    by (rule fetchUpdates_rejected [OF assms(1)])
next
  fix data root members
  assume "archive ''manifest.json'' = Some (Inr data) \<and> jsonParse lib data = Inr root
            \<and> getProperty (Some root) ''manifest'' = Inr (Some (JObj members))"
  then have "getManifestAsync lib path = Inr (Some (JObj members))"
    by (simp add: getManifestAsync_def getManifest_loaded [OF assms])
  from fetchUpdates_manifest [OF assms(1) this]
  show "\<exists>updates. createUpdates (Some (JObj members)) [] updateTypes = Inr updates
                       \<and> fetchUpdates lib path = Resolved updates"
    by (simp add: createUpdates_object)
next
  fix name :: string and entry :: json and members :: "(string \<times> json) list"
  assume "name \<notin> set updateTypes"
  then have "\<And>t. t \<in> set updateTypes \<Longrightarrow> map_of ((name, entry) # members) t = map_of members t"
    by auto
  then show "createUpdates (Some (JObj ((name, entry) # members))) [] updateTypes
              = createUpdates (Some (JObj members)) [] updateTypes"
    unfolding createUpdates_object
    by (simp cong: map_cong filter_cong)
qed

text \<open>
  C8 as stated fails: an archive with no \<open>manifest.json\<close> is rejected with a
  \<open>TypeError\<close>, not with PACKAGE_INVALID.
\<close>

theorem fetchUpdates_missing_manifest:
  "getManifest (packageLibraries [] (\<lambda>s. Inl SyntaxError)) (StringValue ''dfu.zip'')
     = CallbackError TypeError
   \<and> fetchUpdates (packageLibraries [] (\<lambda>s. Inl SyntaxError)) ''dfu.zip'' = Rejected TypeError
   \<and> fetchUpdates (packageLibraries [] (\<lambda>s. Inl SyntaxError)) ''dfu.zip''
       \<noteq> Rejected (DfuError PACKAGE_INVALID)"
  by (simp add: fetchUpdates_def getManifest_def getManifestAsync_def loadZip_def
      packageLibraries_def)

text \<open>C8 at work: a manifest that does not parse.\<close>

theorem fetchUpdates_failures_witness:
  "loadZip (packageLibraries [(''manifest.json'', Inr ''{'')] (\<lambda>s. Inl SyntaxError)) ''dfu.zip''
     = Inr (map_of [(''manifest.json'', Inr ''{'')])
   \<and> fetchUpdates (packageLibraries [(''manifest.json'', Inr ''{'')] (\<lambda>s. Inl SyntaxError))
        ''dfu.zip'' = Rejected SyntaxError"
proof -
  let ?L = "packageLibraries [(''manifest.json'', Inr ''{'')] (\<lambda>s. Inl SyntaxError)"
  have l: "loadZip ?L ''dfu.zip'' = Inr (map_of [(''manifest.json'', Inr ''{'')])"
    by (simp add: loadZip_def packageLibraries_def)
  have p: "''dfu.zip'' \<noteq> []" by simp
  have e: "map_of [(''manifest.json'', Inr ''{'')] ''manifest.json'' = Some (Inr ''{'')
           \<and> jsonParse ?L ''{'' = Inl SyntaxError"
    by (simp add: packageLibraries_def)
  from fetchUpdates_failures [OF l p] e have "fetchUpdates ?L ''dfu.zip'' = Rejected SyntaxError"
    by blast
  with l show ?thesis by (intro conjI)
qed

text \<open>
  C9. For every manifest object, the updates that the reader resolves with are those
  of the members present, in the order softdevice, bootloader, softdevice_bootloader,
  application: an application update is the last one, and the order of the members
  in the manifest does not matter.
\<close>

theorem fetchUpdates_order:
  assumes "loadZip lib path = Inr archive"
      and "getManifestAsync lib path = Inr (Some (JObj members))"
  shows "fetchUpdates lib path =
           Resolved (map (\<lambda>t. makeUpdate (the (map_of members t)))
                      (filter (\<lambda>t. truthy (map_of members t))
                         [''softdevice'', ''bootloader'', ''softdevice_bootloader'',
                          ''application'']))
       \<and> (truthy (map_of members ''application'') \<longrightarrow>
            (\<exists>updates. fetchUpdates lib path = Resolved updates
                       \<and> last updates = makeUpdate (the (map_of members ''application''))))
       \<and> (\<forall>members'. distinct (map fst members) \<and> distinct (map fst members')
                       \<and> set members' = set members \<longrightarrow>
            createUpdates (Some (JObj members')) [] updateTypes
              = createUpdates (Some (JObj members)) [] updateTypes)"
proof (intro conjI allI impI)
  show r: "fetchUpdates lib path =
           Resolved (map (\<lambda>t. makeUpdate (the (map_of members t)))
                      (filter (\<lambda>t. truthy (map_of members t))
                         [''softdevice'', ''bootloader'', ''softdevice_bootloader'',
                          ''application'']))"
    using fetchUpdates_manifest [OF assms]
    by (simp only: createUpdates_object updateTypes_def) simp
  assume "truthy (map_of members ''application'')"
  then show "\<exists>updates. fetchUpdates lib path = Resolved updates
                       \<and> last updates = makeUpdate (the (map_of members ''application''))"
    unfolding r by simp
next
  fix members'
  assume "distinct (map fst members) \<and> distinct (map fst members') \<and> set members' = set members"
  then have "map_of members' = map_of members"
    by (simp add: map_of_inject_set)
  then show "createUpdates (Some (JObj members')) [] updateTypes
              = createUpdates (Some (JObj members)) [] updateTypes"
    by (simp add: createUpdates_object)
qed

text \<open>C9 at work: a manifest that names the application before the softdevice.\<close>

theorem fetchUpdates_order_witness:
  "fetchUpdates
     (packageLibraries [(''manifest.json'', Inr ''{}'')]
        (\<lambda>s. Inr (JObj [(''manifest'',
                 JObj [(''application'', firmwareEntry ''app''),
                       (''softdevice'', firmwareEntry ''sd'')])])))
     ''dfu.zip''
   = Resolved [makeUpdate (firmwareEntry ''sd''), makeUpdate (firmwareEntry ''app'')]"
proof -
  let ?members = "[(''application'', firmwareEntry ''app''), (''softdevice'', firmwareEntry ''sd'')]"
  let ?L = "packageLibraries [(''manifest.json'', Inr ''{}'')]
        (\<lambda>s. Inr (JObj [(''manifest'', JObj ?members)]))"
  have l: "loadZip ?L ''dfu.zip'' = Inr (map_of [(''manifest.json'', Inr ''{}'')])"
    by (simp add: loadZip_def packageLibraries_def)
  have m: "getManifestAsync ?L ''dfu.zip'' = Inr (Some (JObj ?members))"
    by (simp add: getManifestAsync_def getManifest_def loadZip_def packageLibraries_def)
  from fetchUpdates_order [OF l m] show ?thesis
    by (simp add: firmwareEntry_def)
qed

section \<open>The arguments of getManifest\<close>

text \<open>
  C10. \<open>getManifest\<close> checks its argument before it reads any file: whatever the
  libraries would do, it throws \<open>Missing argument zipFilePath.\<close> for \<open>undefined\<close>
  and \<open>zipFilePath must be a non-empty string.\<close> for a value that is not a string
  and for the empty string. A throw is not a call of the callback.
\<close>

theorem getManifest_validates_argument:
  "getManifest lib Undefined = Throws (JsError ''Missing argument zipFilePath.'')
   \<and> getManifest lib OtherValue = Throws (JsError ''zipFilePath must be a non-empty string.'')
   \<and> getManifest lib (StringValue [])
       = Throws (JsError ''zipFilePath must be a non-empty string.'')"
  by (simp add: getManifest_def)

end
